theory Spec2Isabelle
  imports Complex_Main "HOL-Library.AList"
begin

section \<open>The generator of scheduling instances (generate\_input.py)\<close>

text \<open>
  A shallow embedding of \<open>LargeScaleInputGenerator\<close>. Python integers are \<open>int\<close>.
  The floats of the program are \<open>rat\<close>: weekly hours (1.5 and 3.0), their sums and doubles
  and the halves of list lengths are small multiples of one half, which binary floating
  point represents exactly, and the utilization is compared with one half far from any
  rounding. The thresholds and weights of the random draws (0.2, 0.3, 0.7, the weight
  tables) and the average number of courses per student are the exact fractions, where the
  program has the doubles next to them: a draw that falls exactly on such a boundary can
  take the neighbouring branch in the program. Every branch the program can take is taken
  here for some draw, and the properties below hold on all branches. Dictionaries with
  fixed keys are records, lists are lists, and an exception is the \<open>Inl\<close> of a sum.
\<close>

subsection \<open>Exceptions\<close>

datatype error = ZeroDivisionError | ValueError | IndexError | KeyError | OverflowError

subsection \<open>The random source\<close>

text \<open>
  The module-level generator of Python's \<open>random\<close> is global mutable state, seeded by
  \<open>__init__\<close>. Its state is threaded explicitly here. The state is the sequence of raw
  draws still to come: a list of naturals, continued by zeros once it is used up. Every
  primitive takes one raw draw and reduces it into its own range, so each outcome the
  library can produce is produced by some state.
\<close>

type_synonym rng = "nat list"

fun next_raw :: "rng \<Rightarrow> nat \<times> rng" where
  "next_raw [] = (0, [])"
| "next_raw (x # xs) = (x, xs)"

text \<open>\<open>random._randbelow(n)\<close>: an index below \<open>n\<close>.\<close>

definition randbelow :: "nat \<Rightarrow> rng \<Rightarrow> nat \<times> rng" where
  "randbelow n g = (let (x, g1) = next_raw g in (x mod n, g1))"

text \<open>\<open>random.random()\<close>: a multiple of \<open>2 ^ -53\<close> in the half-open unit interval.\<close>

definition random_unit :: "rng \<Rightarrow> rat \<times> rng" where
  "random_unit g =
     (let (x, g1) = next_raw g
      in (rat_of_int (int x mod 9007199254740992) / 9007199254740992, g1))"

text \<open>
  \<open>random.choice(seq)\<close> is \<open>seq[_randbelow(len(seq))]\<close>. It raises on an empty sequence;
  every call of the program passes a non-empty constant list, or a list it has just tested
  to be non-empty.
\<close>

definition choice :: "'a list \<Rightarrow> rng \<Rightarrow> 'a \<times> rng" where
  "choice seq g = (let (j, g1) = randbelow (length seq) g in (seq ! j, g1))"

text \<open>
  \<open>random.randint(a, b)\<close> is \<open>a + _randbelow(b - a + 1)\<close>. It raises when \<open>b < a\<close>; the
  calls of the program have constant bounds, but for the one in \<open>generate_classrooms\<close>,
  whose bounds are ordered too (lemma \<open>classroom_bounds_ordered\<close>).
\<close>

definition randint :: "int \<Rightarrow> int \<Rightarrow> rng \<Rightarrow> int \<times> rng" where
  "randint a b g = (let (j, g1) = randbelow (nat (b - a + 1)) g in (a + int j, g1))"

text \<open>
  \<open>random.choices(population, weights)[0]\<close>: the running sums of the weights, one
  \<open>random()\<close> scaled by their total, and a right bisection among the sums with the upper
  limit \<open>len - 1\<close>. On a non-decreasing list the bisection returns the number of leading
  entries that are at most the probe.
\<close>

fun accumulate :: "rat \<Rightarrow> rat list \<Rightarrow> rat list" where
  "accumulate acc [] = []"
| "accumulate acc (w # ws) = (acc + w) # accumulate (acc + w) ws"

definition bisect :: "rat list \<Rightarrow> rat \<Rightarrow> nat" where
  "bisect cum x = length (takeWhile (\<lambda>c. c \<le> x) (butlast cum))"

definition choices :: "'a list \<Rightarrow> rat list \<Rightarrow> rng \<Rightarrow> 'a \<times> rng" where
  "choices population weights g =
     (let cum_weights = accumulate 0 weights;
          total = last cum_weights;
          (u, g1) = random_unit g
      in (population ! bisect cum_weights (u * total), g1))"

text \<open>
  \<open>random.sample(population, k)\<close> for a population of at most 21 elements: \<open>k\<close> times,
  an index \<open>j\<close> below the number of live entries, the entry at \<open>j\<close> goes to the result and
  the last live entry takes its place.
\<close>

fun sample :: "'a list \<Rightarrow> nat \<Rightarrow> rng \<Rightarrow> 'a list \<times> rng" where
  "sample pool 0 g = ([], g)"
| "sample pool (Suc k) g =
     (let (j, g1) = randbelow (length pool) g;
          x = pool ! j;
          (xs, g2) = sample (butlast (pool[j := last pool])) k g1
      in (x # xs, g2))"

subsection \<open>Formatting of integers\<close>

definition digit_char :: "nat \<Rightarrow> char" where
  "digit_char d = ''0123456789'' ! d"

fun dec :: "nat \<Rightarrow> string" where
  "dec n = (if n < 10 then [digit_char n] else dec (n div 10) @ [digit_char (n mod 10)])"

declare dec.simps [simp del]

text \<open>\<open>str(i)\<close>, the plain \<open>{i}\<close> of an f-string.\<close>

definition str_int :: "int \<Rightarrow> string" where
  "str_int i = (if i < 0 then CHR ''-'' # dec (nat (- i)) else dec (nat i))"

text \<open>\<open>{i:03d}\<close> and \<open>{i:04d}\<close>: zeros between the sign and the digits up to the width.\<close>

definition zfill :: "nat \<Rightarrow> string \<Rightarrow> string" where
  "zfill w s = replicate (w - length s) CHR ''0'' @ s"

definition fmt_0d :: "nat \<Rightarrow> int \<Rightarrow> string" where
  "fmt_0d w i =
     (if i < 0 then CHR ''-'' # zfill (w - 1) (dec (nat (- i))) else zfill w (dec (nat i)))"

subsection \<open>Records of the instance\<close>

record course =
  c_id :: string
  c_name :: string
  c_type :: string
  weekly_hours :: rat
  instructor_id :: string
  expected_enrollment :: int
  level :: string
  c_department :: string

record slot =
  day :: string
  period_index :: nat

record debug_info =
  courses_to_teach :: int
  hours_to_teach :: rat
  available_periods :: nat
  required_min_periods :: int

text \<open>The key \<open>_debug\<close> of an instructor is present (\<open>Some\<close>) or deleted (\<open>None\<close>).\<close>

record instructor =
  i_id :: string
  i_name :: string
  availability :: "slot list"
  back_to_back_preference :: int
  allow_lunch_teaching :: bool
  i_department :: string
  i_debug :: "debug_info option"

record classroom =
  r_id :: string
  r_name :: string
  capacity :: int

record student =
  s_id :: string
  s_name :: string
  year :: string
  enrolled_course_ids :: "string list"

subsection \<open>Class constants\<close>

definition COURSE_TYPES :: "(string \<times> rat) list" where
  "COURSE_TYPES =
     [(''full_term'', 70 / 100), (''first_half_term'', 15 / 100), (''second_half_term'', 15 / 100)]"

definition DEPARTMENTS :: "string list" where
  "DEPARTMENTS =
     [''Computer Science'', ''Mathematics'', ''Statistics'', ''Economics'',
      ''Management Science & Engineering'', ''Electrical Engineering'',
      ''Mechanical Engineering'', ''Physics'', ''Chemistry'', ''Biology'']"

record level_info =
  lv_key :: string
  min_enroll :: int
  max_enroll :: int
  prob :: rat

definition COURSE_LEVELS :: "level_info list" where
  "COURSE_LEVELS =
     [\<lparr>lv_key = ''100'', min_enroll = 80, max_enroll = 200, prob = 15 / 100\<rparr>,
      \<lparr>lv_key = ''200'', min_enroll = 40, max_enroll = 100, prob = 30 / 100\<rparr>,
      \<lparr>lv_key = ''300'', min_enroll = 20, max_enroll = 60, prob = 35 / 100\<rparr>,
      \<lparr>lv_key = ''400'', min_enroll = 10, max_enroll = 30, prob = 20 / 100\<rparr>]"

definition STUDENT_YEARS :: "(string \<times> rat) list" where
  "STUDENT_YEARS =
     [(''freshman'', 25 / 100), (''sophomore'', 25 / 100), (''junior'', 25 / 100),
      (''senior'', 20 / 100), (''graduate'', 5 / 100)]"

definition WEEKDAYS :: "string list" where
  "WEEKDAYS = [''Mon'', ''Tue'', ''Wed'', ''Thu'', ''Fri'']"

subsection \<open>generate\_courses\<close>

definition name_prefixes :: "string list" where
  "name_prefixes =
     [''CS'', ''MATH'', ''STAT'', ''ECON'', ''MS&E'', ''EE'', ''ME'', ''PHYS'', ''CHEM'', ''BIO'',
      ''ENGR'', ''DATA'', ''HIST'', ''ENGL'', ''PSYCH'', ''SOC'', ''PHIL'']"

definition name_suffixes :: "string list" where
  "name_suffixes =
     [''Introduction'', ''Advanced'', ''Theory'', ''Applications'',
      ''Seminar'', ''Lab'', ''Workshop'', ''Project'']"

text \<open>One turn of the loop of \<open>_generate_course_names\<close>.\<close>

definition course_name :: "rng \<Rightarrow> string \<times> rng" where
  "course_name g =
     (let (prefix, g1) = choice name_prefixes g;
          (number, g2) = randint 100 499 g1;
          (u, g3) = random_unit g2
      in if u < 3 / 10
         then (let (suffix, g4) = choice name_suffixes g3
               in (prefix @ '' '' @ str_int number @ '': '' @ suffix, g4))
         else (prefix @ '' '' @ str_int number, g3))"

fun course_names_loop :: "nat \<Rightarrow> rng \<Rightarrow> string list \<times> rng" where
  "course_names_loop 0 g = ([], g)"
| "course_names_loop (Suc k) g =
     (let (name, g1) = course_name g;
          (names, g2) = course_names_loop k g1
      in (name # names, g2))"

definition generate_course_names :: "int \<Rightarrow> rng \<Rightarrow> string list \<times> rng" where
  "generate_course_names num_courses g = course_names_loop (nat num_courses) g"

text \<open>
  One turn of the loop of \<open>generate_courses\<close>, at index \<open>i\<close>. The level is drawn as an
  entry of \<open>COURSE_LEVELS\<close>: the key drawn and the value the program then looks up under
  it. \<open>i % num_instructors\<close> raises for a zero divisor and has the sign of the divisor
  otherwise, as \<open>mod\<close> on \<open>int\<close> has.
\<close>

definition gen_course :: "int \<Rightarrow> string list \<Rightarrow> nat \<Rightarrow> rng \<Rightarrow> error + (course \<times> rng)" where
  "gen_course num_instructors course_names i g =
     (let (lv, g1) = choices COURSE_LEVELS (map prob COURSE_LEVELS) g;
          (enrollment, g2) = randint (min_enroll lv) (max_enroll lv) g1;
          (course_type, g3) = choices (map fst COURSE_TYPES) (map snd COURSE_TYPES) g2
      in if num_instructors = 0 then Inl ZeroDivisionError
         else
           (let instructor_idx = int i mod num_instructors;
                (hours, g4) =
                  (if lv_key lv \<in> set [''100'', ''200''] then (3 / 2, g3)
                   else (let (u, g') = random_unit g3 in (if u < 7 / 10 then 3 / 2 else 3, g')));
                (dept, g5) = choice DEPARTMENTS g4
            in Inr (\<lparr>c_id = ''COURSE'' @ fmt_0d 3 (int i),
                      c_name = course_names ! i,
                      c_type = course_type,
                      weekly_hours = hours,
                      instructor_id = ''PROF'' @ fmt_0d 3 instructor_idx,
                      expected_enrollment = enrollment,
                      level = lv_key lv,
                      c_department = dept\<rparr>, g5)))"

fun courses_loop :: "int \<Rightarrow> string list \<Rightarrow> nat list \<Rightarrow> rng \<Rightarrow> error + (course list \<times> rng)" where
  "courses_loop num_instructors course_names [] g = Inr ([], g)"
| "courses_loop num_instructors course_names (i # is) g =
     (case gen_course num_instructors course_names i g of
        Inl e \<Rightarrow> Inl e
      | Inr (c, g1) \<Rightarrow>
          (case courses_loop num_instructors course_names is g1 of
             Inl e \<Rightarrow> Inl e
           | Inr (cs, g2) \<Rightarrow> Inr (c # cs, g2)))"

definition generate_courses :: "int \<Rightarrow> int \<Rightarrow> rng \<Rightarrow> error + (course list \<times> rng)" where
  "generate_courses num_courses num_instructors g =
     (let (course_names, g1) = generate_course_names num_courses g
      in courses_loop num_instructors course_names [0..<nat num_courses] g1)"

subsection \<open>generate\_instructors\<close>

definition first_names :: "string list" where
  "first_names =
     [''Alice'', ''Bob'', ''Carol'', ''David'', ''Emma'', ''Frank'', ''Grace'', ''Henry'',
      ''Iris'', ''Jack'', ''Karen'', ''Leo'', ''Maria'', ''Nathan'', ''Olivia'', ''Peter'',
      ''Quinn'', ''Rachel'', ''Sam'', ''Tina'', ''Uma'', ''Victor'', ''Wendy'', ''Xavier'',
      ''Yuki'', ''Zoe'', ''Alex'', ''Blake'', ''Casey'', ''Drew'', ''Eli'', ''Fiona'']"

definition last_names :: "string list" where
  "last_names =
     [''Anderson'', ''Brown'', ''Chen'', ''Davis'', ''Evans'', ''Fischer'', ''Garcia'',
      ''Harris'', ''Ivanov'', ''Johnson'', ''Kim'', ''Lee'', ''Martinez'', ''Nguyen'',
      [CHR ''O'', CHR 0x27, CHR ''B'', CHR ''r'', CHR ''i'', CHR ''e'', CHR ''n''],
      ''Patel'', ''Quinn'', ''Rodriguez'', ''Smith'', ''Taylor'', ''Ueda'',
      ''Vargas'', ''Wang'', ''Xu'', ''Yamamoto'', ''Zhang'']"

text \<open>
  The two dictionaries \<open>courses_per_instructor\<close> and \<open>total_hours_per_instructor\<close>,
  filled by one pass over the courses; \<open>d.get(k, 0)\<close> reads a missing key as zero.
\<close>

definition get0 :: "(string \<rightharpoonup> 'a::zero) \<Rightarrow> string \<Rightarrow> 'a" where
  "get0 d k = (case d k of None \<Rightarrow> 0 | Some v \<Rightarrow> v)"

fun tally_courses ::
  "course list \<Rightarrow> (string \<rightharpoonup> int) \<Rightarrow> (string \<rightharpoonup> rat) \<Rightarrow> (string \<rightharpoonup> int) \<times> (string \<rightharpoonup> rat)" where
  "tally_courses [] courses_per_instructor total_hours_per_instructor =
     (courses_per_instructor, total_hours_per_instructor)"
| "tally_courses (c # cs) courses_per_instructor total_hours_per_instructor =
     (let inst_id = instructor_id c
      in tally_courses cs
           (courses_per_instructor(inst_id \<mapsto> get0 courses_per_instructor inst_id + 1))
           (total_hours_per_instructor(inst_id \<mapsto>
              get0 total_hours_per_instructor inst_id + weekly_hours c)))"

text \<open>\<open>int(x)\<close> on a float truncates towards zero.\<close>

definition py_int :: "rat \<Rightarrow> int" where
  "py_int q = (if 0 \<le> q then \<lfloor>q\<rfloor> else \<lceil>q\<rceil>)"

text \<open>The window of periods of one available day: one or two draws.\<close>

definition period_range :: "int \<Rightarrow> rng \<Rightarrow> nat list \<times> rng" where
  "period_range num_courses_to_teach g =
     (let (u1, g1) = random_unit g
      in if u1 < 2 / 10
         then (if num_courses_to_teach \<le> 2 then [0..<12] else [0..<18], g1)
         else (let (u2, g2) = random_unit g1
               in if u2 < 2 / 10
                  then (if num_courses_to_teach \<le> 2 then [6..<20] else [0..<18], g2)
                  else ([0..<20], g2)))"

fun day_windows :: "int \<Rightarrow> string list \<Rightarrow> rng \<Rightarrow> slot list \<times> rng" where
  "day_windows num_courses_to_teach [] g = ([], g)"
| "day_windows num_courses_to_teach (d # ds) g =
     (let (periods, g1) = period_range num_courses_to_teach g;
          (rest, g2) = day_windows num_courses_to_teach ds g1
      in (map (\<lambda>p. \<lparr>day = d, period_index = p\<rparr>) periods @ rest, g2))"

text \<open>
  The top-up loop: \<open>while total_available_periods < min_periods_needed and remaining_days\<close>,
  taking the remaining days from the front.
\<close>

fun top_up :: "int \<Rightarrow> string list \<Rightarrow> slot list \<Rightarrow> int \<Rightarrow> slot list" where
  "top_up min_periods_needed [] slots total_available_periods = slots"
| "top_up min_periods_needed (extra_day # remaining_days) slots total_available_periods =
     (if total_available_periods < min_periods_needed
      then top_up min_periods_needed remaining_days
             (slots @ map (\<lambda>p. \<lparr>day = extra_day, period_index = p\<rparr>) [0..<20])
             (total_available_periods + 20)
      else slots)"

definition gen_instructor ::
  "(string \<rightharpoonup> int) \<Rightarrow> (string \<rightharpoonup> rat) \<Rightarrow> nat \<Rightarrow> rng \<Rightarrow> instructor \<times> rng" where
  "gen_instructor courses_per_instructor total_hours_per_instructor i g =
     (let (first_name, g1) = choice first_names g;
          (last_name, g2) = choice last_names g1;
          inst_id = ''PROF'' @ fmt_0d 3 (int i);
          num_courses_to_teach = get0 courses_per_instructor inst_id;
          hours = get0 total_hours_per_instructor inst_id;
          required_periods = py_int (hours * 2);
          min_periods_needed = max (required_periods * 3) 30;
          (num_days_available, g3) = choice [4, 5] g2;
          (available_days, g4) = sample WEEKDAYS num_days_available g3;
          (windows, g5) = day_windows num_courses_to_teach available_days g4;
          total_available_periods = int (length windows);
          slots =
            (if total_available_periods < min_periods_needed
             then top_up min_periods_needed (filter (\<lambda>d. d \<notin> set available_days) WEEKDAYS)
                    windows total_available_periods
             else windows);
          (b2b_pref, g6) = choices [- 1, 0, 1] [3 / 10, 5 / 10, 2 / 10] g5;
          (u, g7) = random_unit g6;
          (dept, g8) = choice DEPARTMENTS g7
      in (\<lparr>i_id = inst_id,
           i_name = ''Prof. '' @ first_name @ '' '' @ last_name,
           availability = slots,
           back_to_back_preference = b2b_pref,
           allow_lunch_teaching = (u < 3 / 10),
           i_department = dept,
           i_debug = Some \<lparr>courses_to_teach = num_courses_to_teach,
                            hours_to_teach = hours,
                            available_periods = length slots,
                            required_min_periods = min_periods_needed\<rparr>\<rparr>, g8))"

fun instructors_loop ::
  "(string \<rightharpoonup> int) \<Rightarrow> (string \<rightharpoonup> rat) \<Rightarrow> nat list \<Rightarrow> rng \<Rightarrow> instructor list \<times> rng" where
  "instructors_loop cpi thpi [] g = ([], g)"
| "instructors_loop cpi thpi (i # is) g =
     (let (x, g1) = gen_instructor cpi thpi i g;
          (xs, g2) = instructors_loop cpi thpi is g1
      in (x # xs, g2))"

text \<open>The parameter \<open>num_courses\<close> of the program is not used by it.\<close>

definition generate_instructors ::
  "int \<Rightarrow> int \<Rightarrow> course list \<Rightarrow> rng \<Rightarrow> instructor list \<times> rng" where
  "generate_instructors num_instructors num_courses course_list g =
     (let (courses_per_instructor, total_hours_per_instructor) =
            tally_courses course_list Map.empty Map.empty
      in instructors_loop courses_per_instructor total_hours_per_instructor
           [0..<nat num_instructors] g)"

subsection \<open>generate\_classrooms\<close>

definition buildings :: "string list" where
  "buildings =
     [''Gates'', ''Huang'', ''Hewlett'', ''McCullough'', ''Littlefield'',
      ''Meyer'', ''Jordan'', ''Skilling'', ''Mitchell'', ''Thornton'']"

definition capacity_distribution :: "(int \<times> int \<times> rat) list" where
  "capacity_distribution =
     [(20, 30, 10 / 100), (30, 50, 20 / 100), (50, 80, 30 / 100),
      (80, 120, 25 / 100), (120, 250, 15 / 100)]"

text \<open>\<open>max(...)\<close> of an iterable raises \<open>ValueError\<close> when there is nothing in it.\<close>

fun py_max :: "int list \<Rightarrow> error + int" where
  "py_max [] = Inl ValueError"
| "py_max (x # xs) = Inr (fold max xs x)"

definition gen_classroom :: "int \<Rightarrow> nat \<Rightarrow> rng \<Rightarrow> classroom \<times> rng" where
  "gen_classroom max_enrollment i g =
     (let (building, g1) = choice buildings g;
          (room_num, g2) = randint 100 599 g1;
          (cap, g3) =
            (if i < 3
             then randint (max 120 max_enrollment) (max 250 (max_enrollment + 50)) g2
             else (let ((cap_min, cap_max, w), g') =
                         choices capacity_distribution
                           (map (\<lambda>(lo, hi, w). w) capacity_distribution) g2
                   in randint cap_min cap_max g'))
      in (\<lparr>r_id = ''ROOM'' @ fmt_0d 3 (int i),
           r_name = building @ '' '' @ str_int room_num,
           capacity = cap\<rparr>, g3))"

fun classrooms_loop :: "int \<Rightarrow> nat list \<Rightarrow> rng \<Rightarrow> classroom list \<times> rng" where
  "classrooms_loop max_enrollment [] g = ([], g)"
| "classrooms_loop max_enrollment (i # is) g =
     (let (x, g1) = gen_classroom max_enrollment i g;
          (xs, g2) = classrooms_loop max_enrollment is g1
      in (x # xs, g2))"

text \<open>
  After the loop the program prints a report that reads \<open>course_enrollments[0]\<close> and
  \<open>room_capacities[0]\<close> of the two sorted lists: the second read raises \<open>IndexError\<close>
  when no room was generated (the first cannot, \<open>max\<close> has raised before on no course).
\<close>

definition generate_classrooms ::
  "int \<Rightarrow> course list \<Rightarrow> rng \<Rightarrow> error + (classroom list \<times> rng)" where
  "generate_classrooms num_rooms course_list g =
     (case py_max (map expected_enrollment course_list) of
        Inl e \<Rightarrow> Inl e
      | Inr max_enrollment \<Rightarrow>
          (let (rooms, g1) = classrooms_loop max_enrollment [0..<nat num_rooms] g
           in if rooms = [] then Inl IndexError else Inr (rooms, g1)))"

subsection \<open>generate\_students\<close>

definition student_names :: "string list" where
  "student_names =
     [''Emma'', ''Liam'', ''Olivia'', ''Noah'', ''Ava'', ''Ethan'', ''Sophia'', ''Mason'',
      ''Isabella'', ''William'', ''Mia'', ''James'', ''Charlotte'', ''Benjamin'', ''Amelia'',
      ''Lucas'', ''Harper'', ''Henry'', ''Evelyn'', ''Alexander'', ''Abigail'', ''Michael'',
      ''Emily'', ''Daniel'', ''Elizabeth'', ''Matthew'', ''Sofia'', ''Jackson'', ''Avery'',
      ''Sebastian'', ''Ella'', ''Jack'', ''Scarlett'', ''Aiden'', ''Grace'', ''Owen'', ''Chloe'',
      ''Samuel'', ''Victoria'', ''David'', ''Riley'', ''Joseph'', ''Aria'', ''Carter'', ''Lily'']"

definition level_probs :: "string \<Rightarrow> (string \<times> rat) list" where
  "level_probs yr =
     (if yr = ''freshman''
      then [(''100'', 7 / 10), (''200'', 3 / 10), (''300'', 0), (''400'', 0)]
      else if yr = ''sophomore''
      then [(''100'', 3 / 10), (''200'', 5 / 10), (''300'', 2 / 10), (''400'', 0)]
      else if yr = ''junior''
      then [(''100'', 1 / 10), (''200'', 3 / 10), (''300'', 5 / 10), (''400'', 1 / 10)]
      else if yr = ''senior''
      then [(''100'', 0), (''200'', 2 / 10), (''300'', 5 / 10), (''400'', 3 / 10)]
      else [(''100'', 0), (''200'', 0), (''300'', 3 / 10), (''400'', 7 / 10)])"

text \<open>
  The loop \<open>for _ in range(num_courses_to_take)\<close> of one student, with its \<open>break\<close> on
  an empty pool. \<open>available_courses.remove(course)\<close> removes the first entry equal to the
  course drawn. The dictionary \<open>courses_by_level\<close> the program builds before is never read.
\<close>

fun enroll_loop ::
  "nat \<Rightarrow> (string \<times> rat) list \<Rightarrow> course list \<Rightarrow> string list \<Rightarrow> rng \<Rightarrow> string list \<times> rng" where
  "enroll_loop 0 probs available_courses enrolled_courses g = (enrolled_courses, g)"
| "enroll_loop (Suc k) probs available_courses enrolled_courses g =
     (if available_courses = [] then (enrolled_courses, g)
      else
        (let (lvl, g1) = choices (map fst probs) (map snd probs) g;
             at_level = filter (\<lambda>c. level c = lvl) available_courses;
             candidates = (if at_level = [] then available_courses else at_level)
         in if candidates \<noteq> []
            then (let (c, g2) = choice candidates g1
                  in enroll_loop k probs (remove1 c available_courses)
                       (enrolled_courses @ [c_id c]) g2)
            else enroll_loop k probs available_courses enrolled_courses g1))"

definition gen_student :: "course list \<Rightarrow> nat \<Rightarrow> rng \<Rightarrow> student \<times> rng" where
  "gen_student course_list i g =
     (let (yr, g1) = choices (map fst STUDENT_YEARS) (map snd STUDENT_YEARS) g;
          (num_courses_to_take, g2) =
            (if yr = ''graduate'' then choice [2, 3, 4] g1 else choice [3, 4, 5] g1);
          (enrolled_courses, g3) = enroll_loop num_courses_to_take (level_probs yr) course_list [] g2;
          (first_name, g4) = choice student_names g3
      in (\<lparr>s_id = ''STU'' @ fmt_0d 4 (int i),
           s_name = first_name @ '' '' @ str_int (int i),
           year = yr,
           enrolled_course_ids = enrolled_courses\<rparr>, g4))"

fun students_loop :: "course list \<Rightarrow> nat list \<Rightarrow> rng \<Rightarrow> student list \<times> rng" where
  "students_loop course_list [] g = ([], g)"
| "students_loop course_list (i # is) g =
     (let (x, g1) = gen_student course_list i g;
          (xs, g2) = students_loop course_list is g1
      in (x # xs, g2))"

definition generate_students :: "int \<Rightarrow> course list \<Rightarrow> rng \<Rightarrow> student list \<times> rng" where
  "generate_students num_students course_list g =
     students_loop course_list [0..<nat num_students] g"

subsection \<open>\_check\_feasibility\<close>

text \<open>
  The program collects its warnings as formatted strings in the list \<open>issues\<close> and prints
  them. A warning is kept here as the check that gave it with the values the string shows,
  and the function returns the list it prints.
\<close>

datatype issue =
    RoomCapacity string int int
  | InstructorAvailability string rat rat rat
  | TeachingLoad rat rat
  | Utilization rat

text \<open>
  \<open>courses_by_instructor\<close> and \<open>hours_by_instructor\<close> are dictionaries read in the order
  their keys were inserted: association lists, a new key going to the end.
\<close>

definition group_course ::
  "course \<Rightarrow> (string \<times> course list) list \<times> (string \<times> rat) list
     \<Rightarrow> (string \<times> course list) list \<times> (string \<times> rat) list" where
  "group_course c tables =
     (let (courses_by_instructor, hours_by_instructor) = tables;
          inst_id = instructor_id c;
          (cbi, hbi) =
            (if map_of courses_by_instructor inst_id = None
             then (AList.update inst_id [] courses_by_instructor,
                   AList.update inst_id 0 hours_by_instructor)
             else (courses_by_instructor, hours_by_instructor))
      in (AList.map_entry inst_id (\<lambda>cs. cs @ [c]) cbi,
          AList.map_entry inst_id (\<lambda>h. h + weekly_hours c) hbi))"

fun check_instructors ::
  "(string \<rightharpoonup> instructor) \<Rightarrow> (string \<times> rat) list \<Rightarrow> (string \<times> course list) list
     \<Rightarrow> issue list \<Rightarrow> error + issue list" where
  "check_instructors instructor_dict hours_by_instructor [] issues = Inr issues"
| "check_instructors instructor_dict hours_by_instructor ((inst_id, inst_courses) # rest) issues =
     (case instructor_dict inst_id of
        None \<Rightarrow> Inl KeyError
      | Some x \<Rightarrow>
          (let available_hours = rat_of_nat (length (availability x)) * (1 / 2)
           in case map_of hours_by_instructor inst_id of
                None \<Rightarrow> Inl KeyError
              | Some required_hours \<Rightarrow>
                  (let min_required_availability = required_hours * 3
                   in check_instructors instructor_dict hours_by_instructor rest
                        (if available_hours < min_required_availability
                         then issues @ [InstructorAvailability (i_name x) required_hours
                                          available_hours min_required_availability]
                         else issues))))"

text \<open>
  The four checks. The count \<open>sessions_per_week\<close> of the program is computed and never
  read. When no warning was collected, the closing report divides the total availability
  by \<open>total_course_hours\<close>.
\<close>

definition check_feasibility ::
  "course list \<Rightarrow> instructor list \<Rightarrow> classroom list \<Rightarrow> int \<Rightarrow> error + issue list" where
  "check_feasibility course_list instructor_list classroom_list n_weeks =
     (case py_max (map capacity classroom_list) of
        Inl e \<Rightarrow> Inl e
      | Inr max_room_capacity \<Rightarrow>
          (let issues1 =
                 map (\<lambda>c. RoomCapacity (c_id c) (expected_enrollment c) max_room_capacity)
                   (filter (\<lambda>c. expected_enrollment c > max_room_capacity) course_list);
               instructor_dict = fold (\<lambda>x d. d(i_id x \<mapsto> x)) instructor_list Map.empty;
               (courses_by_instructor, hours_by_instructor) = fold group_course course_list ([], [])
           in case check_instructors instructor_dict hours_by_instructor
                     courses_by_instructor issues1 of
                Inl e \<Rightarrow> Inl e
              | Inr issues2 \<Rightarrow>
                  (let total_course_hours = sum_list (map weekly_hours course_list);
                       total_available_hours =
                         sum_list (map (\<lambda>x. rat_of_nat (length (availability x)) * (1 / 2))
                                     instructor_list);
                       issues3 =
                         (if total_available_hours < total_course_hours * 3
                          then issues2 @ [TeachingLoad total_course_hours total_available_hours]
                          else issues2);
                       slots_per_week = (5 :: int) * 24;
                       total_periods_needed = sum_list (map (\<lambda>c. weekly_hours c * 2) course_list);
                       divisor = slots_per_week * int (length classroom_list)
                   in if divisor = 0 then Inl ZeroDivisionError
                      else
                        (let utilization = total_periods_needed / rat_of_int divisor;
                             issues4 =
                               (if utilization > 1 / 2 then issues3 @ [Utilization utilization]
                                else issues3)
                         in if issues4 = [] \<and> total_course_hours = 0
                            then Inl ZeroDivisionError
                            else Inr issues4))))"

subsection \<open>generate\_complete\_input\<close>

text \<open>
  The two dates of the term are kept as day numbers of the proleptic Gregorian calendar
  (\<open>date.toordinal\<close>: 6 January 2025 is day 739257, 31 December 9999 is day 3652059), which
  \<open>strftime\<close> renders one to one. \<open>timedelta\<close> holds at most 999999999 days and a date
  outside the years 1 to 9999 raises \<open>OverflowError\<close>.
\<close>

definition semester_dates :: "int \<Rightarrow> error + (int \<times> int)" where
  "semester_dates n_weeks =
     (let start_date = 739257
      in if 7 * n_weeks < - 999999999 \<or> 999999999 < 7 * n_weeks then Inl OverflowError
         else
           (let shifted = start_date + 7 * n_weeks
            in if shifted < 1 \<or> 3652059 < shifted then Inl OverflowError
               else if shifted - 1 < 1 then Inl OverflowError
               else Inr (start_date, shifted - 1)))"

record TermConfig =
  num_weeks :: int
  days :: "string list"
  period_length_minutes :: int
  day_start_time :: string
  day_end_time :: string
  lunch_start_time :: string
  lunch_end_time :: string
  semester_start_date :: int
  semester_end_date :: int

record ConflictWeights =
  global_student_conflict_weight :: rat
  instructor_compactness_weight :: rat
  preferred_time_slots_weight :: rat

record Statistics =
  num_courses :: int
  num_instructors :: int
  num_rooms :: int
  num_students :: int
  total_enrollments :: int
  avg_courses_per_student :: rat
  potential_conflicts :: int

record Metadata =
  generated_at :: string
  generator_version :: string
  description :: string
  feasibility_checked :: bool
  statistics :: Statistics

record ProblemInstance =
  term_config :: TermConfig
  classrooms :: "classroom list"
  instructors :: "instructor list"
  courses :: "course list"
  students :: "student list"
  conflict_weights :: ConflictWeights
  metadata :: Metadata

text \<open>
  \<open>now\<close> is what \<open>datetime.now().isoformat()\<close> returns when the document is assembled:
  the reading of the clock is an input of the run, as the state of the random source is.
  The quotient \<open>total_enrollment / num_students\<close> raises for no student.
\<close>

definition generate_complete_input ::
  "int \<Rightarrow> int \<Rightarrow> int \<Rightarrow> int \<Rightarrow> int \<Rightarrow> string \<Rightarrow> rng \<Rightarrow> error + (ProblemInstance \<times> rng)" where
  "generate_complete_input n_courses n_instructors n_rooms n_students n_weeks now g =
     (case semester_dates n_weeks of
        Inl e \<Rightarrow> Inl e
      | Inr (start_date, end_date) \<Rightarrow>
     (case generate_courses n_courses n_instructors g of
        Inl e \<Rightarrow> Inl e
      | Inr (course_list, g1) \<Rightarrow>
     (let (instructor_list, g2) = generate_instructors n_instructors n_courses course_list g1
      in case generate_classrooms n_rooms course_list g2 of
        Inl e \<Rightarrow> Inl e
      | Inr (classroom_list, g3) \<Rightarrow>
     (let (student_list, g4) = generate_students n_students course_list g3
      in case check_feasibility course_list instructor_list classroom_list n_weeks of
        Inl e \<Rightarrow> Inl e
      | Inr issues \<Rightarrow>
     (let total_enrollment = sum_list (map (\<lambda>s. int (length (enrolled_course_ids s))) student_list)
      in if n_students = 0 then Inl ZeroDivisionError
         else
     (let average = rat_of_int total_enrollment / rat_of_int n_students;
          conflict_count =
            sum_list (map (\<lambda>s. int (length (enrolled_course_ids s))
                                 * (int (length (enrolled_course_ids s)) - 1) div 2) student_list)
      in Inr (\<lparr>term_config =
                 \<lparr>num_weeks = n_weeks,
                  days = [''Mon'', ''Tue'', ''Wed'', ''Thu'', ''Fri''],
                  period_length_minutes = 30,
                  day_start_time = ''08:00'',
                  day_end_time = ''20:00'',
                  lunch_start_time = ''12:00'',
                  lunch_end_time = ''13:00'',
                  semester_start_date = start_date,
                  semester_end_date = end_date\<rparr>,
               classrooms = classroom_list,
               instructors = map (\<lambda>x. x\<lparr>i_debug := None\<rparr>) instructor_list,
               courses = course_list,
               students = student_list,
               conflict_weights =
                 \<lparr>global_student_conflict_weight = 1,
                  instructor_compactness_weight = 1,
                  preferred_time_slots_weight = 1\<rparr>,
               metadata =
                 \<lparr>generated_at = now,
                  generator_version = ''1.0'',
                  description =
                    ''Large-scale scheduling input: '' @ str_int n_courses @ '' courses, ''
                      @ str_int n_instructors @ '' instructors, '' @ str_int n_students
                      @ '' students'',
                  feasibility_checked = True,
                  statistics =
                    \<lparr>num_courses = n_courses,
                     num_instructors = n_instructors,
                     num_rooms = n_rooms,
                     num_students = n_students,
                     total_enrollments = total_enrollment,
                     avg_courses_per_student = average,
                     potential_conflicts = conflict_count\<rparr>\<rparr>\<rparr>, g4)))))))"

subsection \<open>\_\_init\_\_ and a run from a seed\<close>

text \<open>
  The random source is module state of the library and no argument of the program: every
  draw reads and advances it, and it outlives a call of the generator. \<open>__init__\<close> sets
  it with \<open>random.seed(seed)\<close>, after which it depends on the seed alone, whatever it was
  before. How the library derives the state from the seed is the parameter \<open>seed_state\<close>.
  \<open>numpy.random.seed(seed)\<close>, called next, raises \<open>ValueError\<close> for a seed outside
  \<open>0 .. 2 ^ 32 - 1\<close>; no draw of the generator reads the source of numpy.
\<close>

definition init :: "(int \<Rightarrow> rng) \<Rightarrow> int \<Rightarrow> rng \<Rightarrow> error + rng" where
  "init seed_state seed g =
     (if seed < 0 \<or> 4294967295 < seed then Inl ValueError else Inr (seed_state seed))"

text \<open>
  What \<open>main\<close> does for one instance: it constructs the generator from the seed and calls
  \<open>generate_complete_input\<close> once. \<open>g\<close> is the state of the random source before.
\<close>

definition run_from_seed ::
  "(int \<Rightarrow> rng) \<Rightarrow> int \<Rightarrow> int \<Rightarrow> int \<Rightarrow> int \<Rightarrow> int \<Rightarrow> int \<Rightarrow> string \<Rightarrow> rng
     \<Rightarrow> error + (ProblemInstance \<times> rng)" where
  "run_from_seed seed_state seed n_courses n_instructors n_rooms n_students n_weeks now g =
     (case init seed_state seed g of
        Inl e \<Rightarrow> Inl e
      | Inr g1 \<Rightarrow>
          generate_complete_input n_courses n_instructors n_rooms n_students n_weeks now g1)"

section \<open>Properties\<close>

subsection \<open>The course catalogue\<close>

lemma gen_course_Inr:
  assumes "gen_course ni names i g = Inr (c, g')"
  shows "ni \<noteq> 0 \<and> c_id c = ''COURSE'' @ fmt_0d 3 (int i)
         \<and> instructor_id c = ''PROF'' @ fmt_0d 3 (int i mod ni)
         \<and> (weekly_hours c = 3 / 2 \<or> weekly_hours c = 3)"
  using assms
  by (auto simp: gen_course_def Let_def split: prod.splits if_splits)

lemma gen_course_total:
  assumes "ni \<noteq> 0"
  shows "\<exists>c g'. gen_course ni names i g = Inr (c, g')"
  using assms
  by (auto simp: gen_course_def Let_def split: prod.splits if_splits)

lemma gen_course_zero: "gen_course 0 names i g = Inl ZeroDivisionError"
  by (simp add: gen_course_def Let_def split: prod.splits)

lemma courses_loop_Inr:
  assumes "courses_loop ni names idxs g = Inr (cs, g')"
  shows "map c_id cs = map (\<lambda>i. ''COURSE'' @ fmt_0d 3 (int i)) idxs
         \<and> map instructor_id cs = map (\<lambda>i. ''PROF'' @ fmt_0d 3 (int i mod ni)) idxs
         \<and> (\<forall>c \<in> set cs. weekly_hours c = 3 / 2 \<or> weekly_hours c = 3)
         \<and> (idxs \<noteq> [] \<longrightarrow> ni \<noteq> 0)"
  using assms
proof (induction idxs arbitrary: cs g g')
  case Nil
  then show ?case by simp
next
  case (Cons i idxs)
  from Cons.prems obtain c g1 cs' where
    c: "gen_course ni names i g = Inr (c, g1)" and
    rest: "courses_loop ni names idxs g1 = Inr (cs', g')" and
    cs: "cs = c # cs'"
    by (auto split: sum.splits prod.splits)
  from gen_course_Inr[OF c] Cons.IH[OF rest] cs show ?case by auto
qed

lemma courses_loop_total:
  assumes "ni \<noteq> 0"
  shows "\<exists>cs g'. courses_loop ni names idxs g = Inr (cs, g')"
proof (induction idxs arbitrary: g)
  case Nil
  then show ?case by simp
next
  case (Cons i idxs)
  from gen_course_total[OF assms] obtain c g1 where
    c: "gen_course ni names i g = Inr (c, g1)" by blast
  from Cons.IH obtain cs g' where "courses_loop ni names idxs g1 = Inr (cs, g')" by blast
  with c show ?case by simp
qed

text \<open>
  C6, as the program has it. With no instructor and at least one course, \<open>generate_courses\<close>
  stops in the first turn of its loop with the \<open>ZeroDivisionError\<close> of
  \<open>i % num_instructors\<close>, whatever the random source gives: no catalogue is produced, and
  the exception is the one of the arithmetic, not an error that names the configuration.
\<close>

theorem zero_instructors_error:
  assumes "0 < nc"
  shows "generate_courses nc 0 g = Inl ZeroDivisionError"
proof -
  obtain names g1 where n: "generate_course_names nc g = (names, g1)" by (cases "generate_course_names nc g")
  from assms have u: "[0..<nat nc] = 0 # [1..<nat nc]" by (simp add: upt_conv_Cons)
  have "courses_loop 0 names (0 # [1..<nat nc]) g1 = Inl ZeroDivisionError"
    by (simp add: gen_course_zero)
  then show ?thesis
    by (simp add: generate_courses_def n u)
qed

theorem zero_instructors_error_witness:
  "(0::int) < 3 \<and> generate_courses 3 0 [4, 7, 1] = Inl ZeroDivisionError"
  using zero_instructors_error[of 3 "[4, 7, 1]"] by simp

text \<open>
  C6, as stated, asks for a configuration error with a description. One course and no
  instructor: the result is the bare \<open>ZeroDivisionError\<close>.
\<close>

theorem zero_instructors_counterexample:
  "generate_courses 1 0 [] = Inl ZeroDivisionError"
  by code_simp

subsection \<open>The random primitives\<close>

lemma randbelow_less: "0 < n \<Longrightarrow> randbelow n g = (j, g') \<Longrightarrow> j < n"
  by (auto simp: randbelow_def split: prod.splits)

lemma choice_in_set: "seq \<noteq> [] \<Longrightarrow> choice seq g = (x, g') \<Longrightarrow> x \<in> set seq"
  by (auto simp: choice_def dest!: randbelow_less[rotated] split: prod.splits)

lemma randint_lower: "randint a b g = (x, g') \<Longrightarrow> a \<le> x"
  by (auto simp: randint_def split: prod.splits)

subsection \<open>Classrooms\<close>

lemma classroom_bounds_ordered: "max 120 m \<le> max 250 (m + 50)" for m :: int
  by (simp add: max_def)

lemma gen_classroom_capacity:
  assumes "gen_classroom m i g = (r, g')" and "i < 3"
  shows "m \<le> capacity r"
  using assms
  by (auto simp: gen_classroom_def Let_def split: prod.splits dest!: randint_lower)

lemma classrooms_loop_first:
  assumes "classrooms_loop m (i # idxs) g = (rs, g')" and "i < 3"
  shows "rs \<noteq> [] \<and> m \<le> capacity (hd rs)"
  using assms
  by (auto split: prod.splits dest: gen_classroom_capacity)

lemma classrooms_loop_length:
  "classrooms_loop m idxs g = (rs, g') \<Longrightarrow> length rs = length idxs"
  by (induction idxs arbitrary: g rs g') (auto split: prod.splits)

lemma py_max_Inr:
  assumes "py_max xs = Inr m"
  shows "xs \<noteq> [] \<and> m = Max (set xs)"
proof (cases xs)
  case Nil
  with assms show ?thesis by simp
next
  case (Cons a list)
  with assms have "m = fold max list a" by simp
  also have "\<dots> = Max (set (a # list))" by (rule Max.set_eq_fold[symmetric])
  finally show ?thesis using Cons by simp
qed

lemma generate_classrooms_Inr:
  assumes "generate_classrooms nr cs g = Inr (rooms, g')"
  shows "cs \<noteq> [] \<and> rooms \<noteq> [] \<and> length rooms = nat nr
         \<and> Max (expected_enrollment ` set cs) \<le> Max (capacity ` set rooms)"
proof -
  from assms obtain m where m: "py_max (map expected_enrollment cs) = Inr m"
    and l: "classrooms_loop m [0..<nat nr] g = (rooms, g')" and ne: "rooms \<noteq> []"
    by (auto simp: generate_classrooms_def Let_def split: sum.splits prod.splits if_splits)
  from py_max_Inr[OF m] have cs: "cs \<noteq> []" and mm: "m = Max (expected_enrollment ` set cs)"
    by auto
  from classrooms_loop_length[OF l] have len: "length rooms = nat nr" by simp
  with ne have "0 < nat nr" by (cases rooms) auto
  then have "[0..<nat nr] = 0 # [1..<nat nr]" by (simp add: upt_conv_Cons)
  with l have "classrooms_loop m (0 # [1..<nat nr]) g = (rooms, g')" by simp
  from classrooms_loop_first[OF this] have "m \<le> capacity (hd rooms)" by simp
  also have "capacity (hd rooms) \<le> Max (capacity ` set rooms)"
    using ne by (intro Max_ge) auto
  finally show ?thesis using cs ne len mm by simp
qed

subsection \<open>What a successful run went through\<close>

lemma generate_complete_input_Inr:
  assumes "generate_complete_input nc ni nr ns nw now g = Inr (doc, g')"
  obtains cs g1 ins g2 rooms g3 studs issues where
    "generate_courses nc ni g = Inr (cs, g1)"
    "generate_instructors ni nc cs g1 = (ins, g2)"
    "generate_classrooms nr cs g2 = Inr (rooms, g3)"
    "generate_students ns cs g3 = (studs, g')"
    "check_feasibility cs ins rooms nw = Inr issues"
    "courses doc = cs"
    "instructors doc = map (\<lambda>x. x\<lparr>i_debug := None\<rparr>) ins"
    "classrooms doc = rooms"
    "students doc = studs"
    "feasibility_checked (metadata doc)"
    "generated_at (metadata doc) = now"
    "ns \<noteq> 0"
  using assms unfolding generate_complete_input_def Let_def
  by (auto split: sum.splits prod.splits if_splits)

subsection \<open>The assembled instance\<close>

text \<open>
  C3. Every generated instance has at least one classroom and one course (generation raises
  otherwise), and its largest classroom capacity is at least its largest expected
  enrolment: the room of index 0 is drawn from a range that starts at
  \<open>max(120, max_enrollment)\<close>.
\<close>

theorem capacity_covers_enrollment:
  assumes "generate_complete_input nc ni nr ns nw now g = Inr (doc, g')"
  shows "classrooms doc \<noteq> [] \<and> courses doc \<noteq> []
         \<and> Max (expected_enrollment ` set (courses doc)) \<le> Max (capacity ` set (classrooms doc))"
proof -
  from assms obtain cs g2 g3 where
    "generate_classrooms nr cs g2 = Inr (classrooms doc, g3)" and "courses doc = cs"
    by (auto elim!: generate_complete_input_Inr)
  with generate_classrooms_Inr[of nr cs g2 "classrooms doc" g3] show ?thesis by simp
qed

theorem capacity_covers_enrollment_witness:
  "\<exists>doc g'. generate_complete_input 3 2 4 1 1 ''2025-01-06T09:00:00'' [] = Inr (doc, g')
     \<and> classrooms doc \<noteq> [] \<and> courses doc \<noteq> []
     \<and> Max (expected_enrollment ` set (courses doc)) \<le> Max (capacity ` set (classrooms doc))"
proof -
  have "\<not> isl (generate_complete_input 3 2 4 1 1 ''2025-01-06T09:00:00'' [])"
    by code_simp
  then obtain doc g' where
    run: "generate_complete_input 3 2 4 1 1 ''2025-01-06T09:00:00'' [] = Inr (doc, g')"
    by (cases "generate_complete_input 3 2 4 1 1 ''2025-01-06T09:00:00'' []") auto
  from capacity_covers_enrollment[OF run] run show ?thesis by blast
qed

text \<open>
  C10. In every assembled instance \<open>metadata.feasibility_checked\<close> is \<open>True\<close>, whatever the
  feasibility checks have collected, and no instructor record carries the key \<open>_debug\<close>.
  The witness is a run whose checks collect two warnings.
\<close>

theorem checked_flag_and_no_debug:
  assumes "generate_complete_input nc ni nr ns nw now g = Inr (doc, g')"
  shows "feasibility_checked (metadata doc) \<and> (\<forall>x \<in> set (instructors doc). i_debug x = None)"
  using assms by (auto elim!: generate_complete_input_Inr)

theorem checked_flag_and_no_debug_witness:
  "\<exists>doc g'. generate_complete_input 11 1 1 1 1 ''2025-01-06T09:00:00'' [] = Inr (doc, g')
     \<and> feasibility_checked (metadata doc) \<and> (\<forall>x \<in> set (instructors doc). i_debug x = None)
     \<and> map_sum id length
          (check_feasibility (courses doc) (instructors doc) (classrooms doc) 1) = Inr 2"
proof -
  have e: "map_sum id (\<lambda>r. map_sum id length (check_feasibility (courses (fst r)) (instructors (fst r)) (classrooms (fst r)) 1))
              (generate_complete_input 11 1 1 1 1 ''2025-01-06T09:00:00'' []) = Inr (Inr 2)"
    by code_simp
  then obtain doc g' where
    run: "generate_complete_input 11 1 1 1 1 ''2025-01-06T09:00:00'' [] = Inr (doc, g')"
    by (cases "generate_complete_input 11 1 1 1 1 ''2025-01-06T09:00:00'' []") auto
  from e run have "map_sum id length
          (check_feasibility (courses doc) (instructors doc) (classrooms doc) 1) = Inr 2"
    by simp
  with checked_flag_and_no_debug[OF run] run show ?thesis by blast
qed

subsection \<open>Instructors\<close>

lemma sample_step:
  assumes "distinct pool" and "j < length pool"
  shows "distinct (butlast (pool[j := last pool]))
         \<and> set (butlast (pool[j := last pool])) = set pool - {pool ! j}
         \<and> length (butlast (pool[j := last pool])) = length pool - 1"
proof (cases pool rule: rev_cases)
  case Nil
  with assms show ?thesis by simp
next
  case (snoc ys l)
  with assms have d: "distinct ys" and l: "l \<notin> set ys" by auto
  show ?thesis
  proof (cases "j = length ys")
    case True
    with snoc d l show ?thesis by auto
  next
    case False
    with assms snoc have j: "j < length ys" by simp
    then have upd: "butlast (pool[j := last pool]) = ys[j := l]"
      using snoc by (simp add: list_update_append1)
    have nth: "pool ! j = ys ! j" using snoc j by (simp add: nth_append)
    have neq: "ys ! j \<noteq> l" using j l by (metis nth_mem)
    have "distinct (ys[j := l])" using d l by (simp add: distinct_list_update)
    moreover have "set (ys[j := l]) = set pool - {pool ! j}"
      using set_update_distinct[OF d j, of l] snoc nth neq l j by auto
    ultimately show ?thesis using upd snoc by simp
  qed
qed

lemma sample_props:
  assumes "distinct pool" and "k \<le> length pool" and "sample pool k g = (xs, g')"
  shows "distinct xs \<and> set xs \<subseteq> set pool \<and> length xs = k"
  using assms
proof (induction k arbitrary: pool g xs g')
  case 0
  then show ?case by simp
next
  case (Suc k)
  obtain j g1 where rb: "randbelow (length pool) g = (j, g1)"
    by (cases "randbelow (length pool) g")
  from Suc.prems(2) have pos: "0 < length pool" by (cases pool) auto
  from randbelow_less[OF pos rb] have j: "j < length pool" .
  let ?pool' = "butlast (pool[j := last pool])"
  obtain ys g2 where rec: "sample ?pool' k g1 = (ys, g2)"
    by (cases "sample ?pool' k g1")
  from Suc.prems(3) rb rec have xs: "xs = pool ! j # ys" by (simp add: Let_def)
  from sample_step[OF Suc.prems(1) j] have
    d': "distinct ?pool'" and s': "set ?pool' = set pool - {pool ! j}"
    and l': "length ?pool' = length pool - 1" by auto
  from Suc.prems(2) l' have "k \<le> length ?pool'" by simp
  from Suc.IH[OF d' this rec] have "distinct ys" "set ys \<subseteq> set ?pool'" "length ys = k"
    by auto
  with s' xs j show ?case by auto
qed

lemma period_range_props:
  assumes "period_range n g = (ps, g')"
  shows "ps \<noteq> [] \<and> distinct ps \<and> (\<forall>p \<in> set ps. p < 20)"
proof -
  from assms have "ps = [0..<12] \<or> ps = [0..<18] \<or> ps = [6..<20] \<or> ps = [0..<20]"
    by (auto simp: period_range_def Let_def split: prod.splits if_splits)
  then show ?thesis by auto
qed

lemma day_windows_props:
  assumes "day_windows n ds g = (slots, g')"
  shows "day ` set slots = set ds \<and> (\<forall>s \<in> set slots. period_index s < 20)
         \<and> (distinct ds \<longrightarrow> distinct slots)"
  using assms
proof (induction ds arbitrary: g slots g')
  case Nil
  then show ?case by simp
next
  case (Cons d ds)
  obtain ps g1 where pr: "period_range n g = (ps, g1)" by (cases "period_range n g")
  obtain rest g2 where dw: "day_windows n ds g1 = (rest, g2)" by (cases "day_windows n ds g1")
  let ?here = "map (\<lambda>p. \<lparr>day = d, period_index = p\<rparr>) ps"
  from Cons.prems pr dw have slots: "slots = ?here @ rest" by simp
  from period_range_props[OF pr] have ne: "ps \<noteq> []" and dp: "distinct ps"
    and lt: "\<forall>p \<in> set ps. p < 20" by auto
  from Cons.IH[OF dw] have days: "day ` set rest = set ds"
    and per: "\<forall>s \<in> set rest. period_index s < 20"
    and dist: "distinct ds \<longrightarrow> distinct rest" by auto
  have here_days: "day ` set ?here = {d}" using ne by (cases ps) (auto simp: image_iff)
  have "distinct ?here" using dp by (simp add: distinct_map inj_on_def)
  moreover have "set ?here \<inter> set rest = {}" if nd: "d \<notin> set ds"
  proof -
    have a: "day s = d" if "s \<in> set ?here" for s using that by auto
    have b: "day s \<in> set ds" if "s \<in> set rest" for s using that days by blast
    show ?thesis using a b nd by blast
  qed
  ultimately have "distinct (d # ds) \<longrightarrow> distinct slots" using dist slots by auto
  moreover have "day ` set slots = set (d # ds)"
    using here_days days slots by (simp add: image_Un)
  moreover have "\<forall>s \<in> set slots. period_index s < 20" using lt per slots by auto
  ultimately show ?case by blast
qed

lemma top_up_props:
  assumes "cnt = int (length slots)"
  shows "set slots \<subseteq> set (top_up m rem slots cnt)
         \<and> (m \<le> int (length (top_up m rem slots cnt))
              \<or> set rem \<subseteq> day ` set (top_up m rem slots cnt))
         \<and> day ` set (top_up m rem slots cnt) \<subseteq> day ` set slots \<union> set rem
         \<and> ((\<forall>s \<in> set slots. period_index s < 20)
               \<longrightarrow> (\<forall>s \<in> set (top_up m rem slots cnt). period_index s < 20))
         \<and> (distinct slots \<and> distinct rem \<and> set rem \<inter> day ` set slots = {}
               \<longrightarrow> distinct (top_up m rem slots cnt))"
  using assms
proof (induction rem arbitrary: slots cnt)
  case Nil
  then show ?case by simp
next
  case (Cons d rem)
  show ?case
  proof (cases "cnt < m")
    case False
    then show ?thesis using Cons.prems by auto
  next
    case True
    define extra where "extra = map (\<lambda>p. \<lparr>day = d, period_index = p\<rparr>) [0..<20]"
    define R where "R = top_up m rem (slots @ extra) (cnt + 20)"
    have step: "top_up m (d # rem) slots cnt = R"
      using True by (simp add: extra_def R_def)
    have len: "length extra = 20" by (simp add: extra_def)
    have extra_set: "set extra = (\<lambda>p. \<lparr>day = d, period_index = p\<rparr>) ` {0..<20}"
      by (simp add: extra_def)
    have extra_day: "day s = d" if "s \<in> set extra" for s using that extra_set by auto
    have extra_per: "period_index s < 20" if "s \<in> set extra" for s using that extra_set by auto
    have extra_ne: "\<lparr>day = d, period_index = 0\<rparr> \<in> set extra" using extra_set by auto
    have extra_dist: "distinct extra" by (simp add: extra_def distinct_map inj_on_def)
    have IH: "set (slots @ extra) \<subseteq> set R
         \<and> (m \<le> int (length R) \<or> set rem \<subseteq> day ` set R)
         \<and> day ` set R \<subseteq> day ` set (slots @ extra) \<union> set rem
         \<and> ((\<forall>s \<in> set (slots @ extra). period_index s < 20)
               \<longrightarrow> (\<forall>s \<in> set R. period_index s < 20))
         \<and> (distinct (slots @ extra) \<and> distinct rem \<and> set rem \<inter> day ` set (slots @ extra) = {}
               \<longrightarrow> distinct R)"
      unfolding R_def by (rule Cons.IH) (simp add: len Cons.prems)
    note I1 = IH[THEN conjunct1]
    note I2 = IH[THEN conjunct2, THEN conjunct1]
    note I3 = IH[THEN conjunct2, THEN conjunct2, THEN conjunct1]
    note I4 = IH[THEN conjunct2, THEN conjunct2, THEN conjunct2, THEN conjunct1]
    note I5 = IH[THEN conjunct2, THEN conjunct2, THEN conjunct2, THEN conjunct2]
    have days': "day ` set (slots @ extra) = day ` set slots \<union> {d}"
    proof
      show "day ` set (slots @ extra) \<subseteq> day ` set slots \<union> {d}"
        using extra_day by auto
      have "d \<in> day ` set (slots @ extra)" using extra_ne by force
      then show "day ` set slots \<union> {d} \<subseteq> day ` set (slots @ extra)" by auto
    qed
    have c1: "set slots \<subseteq> set R" using I1 by simp
    have dR: "d \<in> day ` set R"
    proof -
      have "\<lparr>day = d, period_index = 0\<rparr> \<in> set R" using I1 extra_ne by auto
      then show ?thesis by force
    qed
    have c2: "m \<le> int (length R) \<or> set (d # rem) \<subseteq> day ` set R" using I2 dR by auto
    have c3: "day ` set R \<subseteq> day ` set slots \<union> set (d # rem)" using I3 days' by auto
    have c4: "(\<forall>s \<in> set slots. period_index s < 20) \<longrightarrow> (\<forall>s \<in> set R. period_index s < 20)"
    proof
      assume "\<forall>s \<in> set slots. period_index s < 20"
      then have "\<forall>s \<in> set (slots @ extra). period_index s < 20" using extra_per by auto
      with I4 show "\<forall>s \<in> set R. period_index s < 20" by blast
    qed
    have c5: "distinct slots \<and> distinct (d # rem) \<and> set (d # rem) \<inter> day ` set slots = {}
               \<longrightarrow> distinct R"
    proof
      assume a: "distinct slots \<and> distinct (d # rem) \<and> set (d # rem) \<inter> day ` set slots = {}"
      have "set slots \<inter> set extra = {}"
      proof -
        have "day s \<noteq> d" if "s \<in> set slots" for s using that a by auto
        with extra_day show ?thesis by blast
      qed
      with a extra_dist have "distinct (slots @ extra)" by simp
      moreover have "distinct rem" using a by simp
      moreover have "set rem \<inter> day ` set (slots @ extra) = {}" using a days' by auto
      ultimately show "distinct R" using I5 by blast
    qed
    show ?thesis unfolding step using c1 c2 c3 c4 c5 by blast
  qed
qed

lemma gen_instructor_props:
  assumes "gen_instructor cpi thpi i g = (x, g')"
  shows "i_id x = ''PROF'' @ fmt_0d 3 (int i)
         \<and> distinct (availability x)
         \<and> (\<forall>s \<in> set (availability x). day s \<in> set WEEKDAYS \<and> period_index s < 20)
         \<and> (max (py_int (get0 thpi (''PROF'' @ fmt_0d 3 (int i)) * 2) * 3) 30
               \<le> int (length (availability x))
             \<or> set WEEKDAYS \<subseteq> day ` set (availability x))"
proof -
  let ?id = "''PROF'' @ fmt_0d 3 (int i)"
  let ?mn = "max (py_int (get0 thpi ?id * 2) * 3) 30"
  obtain fn g1 where fn: "choice first_names g = (fn, g1)" by (cases "choice first_names g")
  obtain ln g2 where ln: "choice last_names g1 = (ln, g2)" by (cases "choice last_names g1")
  obtain nd g3 where nd: "choice [4, 5::nat] g2 = (nd, g3)" by (cases "choice [4, 5::nat] g2")
  obtain ad g4 where ad: "sample WEEKDAYS nd g3 = (ad, g4)" by (cases "sample WEEKDAYS nd g3")
  obtain w g5 where w: "day_windows (get0 cpi ?id) ad g4 = (w, g5)"
    by (cases "day_windows (get0 cpi ?id) ad g4")
  obtain b g6 where b: "choices [- 1, 0, 1::int] [3 / 10, 5 / 10, 2 / 10] g5 = (b, g6)"
    by (cases "choices [- 1, 0, 1::int] [3 / 10, 5 / 10, 2 / 10] g5")
  obtain u g7 where u: "random_unit g6 = (u, g7)" by (cases "random_unit g6")
  obtain dp g8 where dp: "choice DEPARTMENTS g7 = (dp, g8)" by (cases "choice DEPARTMENTS g7")
  let ?rem = "filter (\<lambda>d. d \<notin> set ad) WEEKDAYS"
  let ?slots = "if int (length w) < ?mn then top_up ?mn ?rem w (int (length w)) else w"
  define mn where "mn = ?mn"
  define rem where "rem = ?rem"
  define slots where "slots = ?slots"
  from assms[unfolded gen_instructor_def Let_def fn ln nd ad w b u dp prod.case]
  have x: "i_id x = ?id" "availability x = slots" by (auto simp: slots_def)
  have slots_eq: "slots = (if int (length w) < mn then top_up mn rem w (int (length w)) else w)"
    by (simp add: slots_def mn_def rem_def)
  have wd: "distinct WEEKDAYS" "length WEEKDAYS = 5" by (simp_all add: WEEKDAYS_def)
  from choice_in_set[OF _ nd] have "nd = 4 \<or> nd = 5" by simp
  then have "nd \<le> length WEEKDAYS" using wd by auto
  from sample_props[OF wd(1) this ad] have dad: "distinct ad" and sad: "set ad \<subseteq> set WEEKDAYS"
    by auto
  from day_windows_props[OF w] dad have wdays: "day ` set w = set ad"
    and wper: "\<forall>s \<in> set w. period_index s < 20" and wdist: "distinct w" by auto
  have wday_in: "day s \<in> set WEEKDAYS" if "s \<in> set w" for s
    using that wdays sad by blast
  have "distinct slots \<and> (\<forall>s \<in> set slots. day s \<in> set WEEKDAYS \<and> period_index s < 20)
        \<and> (mn \<le> int (length slots) \<or> set WEEKDAYS \<subseteq> day ` set slots)"
  proof (cases "int (length w) < mn")
    case False
    then have s: "slots = w" by (simp add: slots_eq)
    from False have "mn \<le> int (length w)" by simp
    with wdist wper wday_in show ?thesis unfolding s by blast
  next
    case True
    define R where "R = top_up mn rem w (int (length w))"
    from True have s: "slots = R" by (simp add: slots_eq R_def)
    have T: "set w \<subseteq> set R
         \<and> (mn \<le> int (length R) \<or> set rem \<subseteq> day ` set R)
         \<and> day ` set R \<subseteq> day ` set w \<union> set rem
         \<and> ((\<forall>s \<in> set w. period_index s < 20) \<longrightarrow> (\<forall>s \<in> set R. period_index s < 20))
         \<and> (distinct w \<and> distinct rem \<and> set rem \<inter> day ` set w = {} \<longrightarrow> distinct R)"
      unfolding R_def by (rule top_up_props) (rule refl)
    note T1 = T[THEN conjunct1]
    note T2 = T[THEN conjunct2, THEN conjunct1]
    note T3 = T[THEN conjunct2, THEN conjunct2, THEN conjunct1]
    note T4 = T[THEN conjunct2, THEN conjunct2, THEN conjunct2, THEN conjunct1]
    note T5 = T[THEN conjunct2, THEN conjunct2, THEN conjunct2, THEN conjunct2]
    have drem1: "distinct rem" using wd(1) by (simp add: rem_def)
    have drem2: "set rem \<inter> day ` set w = {}" unfolding wdays by (auto simp: rem_def)
    have drem3: "set rem \<subseteq> set WEEKDAYS" by (auto simp: rem_def)
    have c1: "distinct R" using T5 wdist drem1 drem2 by blast
    have c2: "\<forall>s \<in> set R. period_index s < 20" using T4 wper by blast
    have "day ` set R \<subseteq> set ad \<union> set rem" using T3 unfolding wdays .
    with sad drem3 have c3: "\<forall>s \<in> set R. day s \<in> set WEEKDAYS" by blast
    have c4: "mn \<le> int (length R) \<or> set WEEKDAYS \<subseteq> day ` set R"
    proof (cases "mn \<le> int (length R)")
      case True
      then show ?thesis by simp
    next
      case False
      with T2 have r: "set rem \<subseteq> day ` set R" by blast
      have "day ` set w \<subseteq> day ` set R" using T1 by blast
      then have a: "set ad \<subseteq> day ` set R" unfolding wdays .
      have "set WEEKDAYS \<subseteq> set ad \<union> set rem" by (auto simp: rem_def)
      with a r show ?thesis by blast
    qed
    from c1 c2 c3 c4 show ?thesis unfolding s by blast
  qed
  with x show ?thesis by (simp add: mn_def)
qed

lemma instructors_loop_ids:
  "instructors_loop cpi thpi idxs g = (xs, g')
     \<Longrightarrow> map i_id xs = map (\<lambda>i. ''PROF'' @ fmt_0d 3 (int i)) idxs"
proof (induction idxs arbitrary: g xs g')
  case Nil
  then show ?case by simp
next
  case (Cons i idxs)
  obtain x g1 where x: "gen_instructor cpi thpi i g = (x, g1)"
    by (cases "gen_instructor cpi thpi i g")
  obtain ys g2 where ys: "instructors_loop cpi thpi idxs g1 = (ys, g2)"
    by (cases "instructors_loop cpi thpi idxs g1")
  from Cons.prems x ys have "xs = x # ys" by simp
  with Cons.IH[OF ys] gen_instructor_props[OF x] show ?case by simp
qed

lemma instructors_loop_elem:
  "instructors_loop cpi thpi idxs g = (xs, g') \<Longrightarrow> x \<in> set xs
     \<Longrightarrow> \<exists>i g0 g1. gen_instructor cpi thpi i g0 = (x, g1)"
proof (induction idxs arbitrary: g xs g')
  case Nil
  then show ?case by simp
next
  case (Cons i idxs)
  obtain y g1 where y: "gen_instructor cpi thpi i g = (y, g1)"
    by (cases "gen_instructor cpi thpi i g")
  obtain ys g2 where ys: "instructors_loop cpi thpi idxs g1 = (ys, g2)"
    by (cases "instructors_loop cpi thpi idxs g1")
  from Cons.prems(1) y ys have "xs = y # ys" by simp
  with Cons.prems(2) have "x = y \<or> x \<in> set ys" by simp
  then show ?case
  proof
    assume "x = y" with y show ?thesis by blast
  next
    assume "x \<in> set ys" from Cons.IH[OF ys this] show ?thesis .
  qed
qed

lemma tally_courses_hours:
  "tally_courses cs cpi thpi = (cpi', thpi')
     \<Longrightarrow> get0 thpi' k
         = get0 thpi k + sum_list (map weekly_hours (filter (\<lambda>c. instructor_id c = k) cs))"
proof (induction cs arbitrary: cpi thpi)
  case Nil
  then show ?case by simp
next
  case (Cons c cs)
  let ?k = "instructor_id c"
  let ?cpi = "cpi(?k \<mapsto> get0 cpi ?k + 1)"
  let ?thpi = "thpi(?k \<mapsto> get0 thpi ?k + weekly_hours c)"
  from Cons.prems have "tally_courses cs ?cpi ?thpi = (cpi', thpi')" by (simp add: Let_def)
  from Cons.IH[OF this] have "get0 thpi' k
      = get0 ?thpi k + sum_list (map weekly_hours (filter (\<lambda>c. instructor_id c = k) cs))" .
  also have "get0 ?thpi k = get0 thpi k + (if ?k = k then weekly_hours c else 0)"
    by (simp add: get0_def)
  finally show ?case by simp
qed

lemma hours_twice_integral:
  assumes "\<forall>c \<in> set cs. weekly_hours c = 3 / 2 \<or> weekly_hours c = 3"
  shows "\<exists>n::nat. sum_list (map weekly_hours cs) * 2 = rat_of_nat n"
  using assms
proof (induction cs)
  case Nil
  show ?case by (rule exI[of _ 0]) simp
next
  case (Cons c cs)
  then obtain n :: nat where n: "sum_list (map weekly_hours cs) * 2 = rat_of_nat n" by auto
  from Cons.prems have "weekly_hours c = 3 / 2 \<or> weekly_hours c = 3" by simp
  then show ?case
  proof
    assume "weekly_hours c = 3 / 2"
    with n have "sum_list (map weekly_hours (c # cs)) * 2 = rat_of_nat (3 + n)"
      by (simp add: algebra_simps)
    then show ?thesis by blast
  next
    assume "weekly_hours c = 3"
    with n have "sum_list (map weekly_hours (c # cs)) * 2 = rat_of_nat (6 + n)"
      by (simp add: algebra_simps)
    then show ?thesis by blast
  qed
qed

lemma py_int_of_nat: "py_int (rat_of_nat n) = int n"
  by (simp add: py_int_def)

lemma generate_instructors_props:
  assumes "generate_instructors ni nc cs g = (ins, g')"
  shows "map i_id ins = map (\<lambda>i. ''PROF'' @ fmt_0d 3 (int i)) [0..<nat ni]"
    and "x \<in> set ins \<Longrightarrow> distinct (availability x)
           \<and> (\<forall>s \<in> set (availability x). day s \<in> set WEEKDAYS \<and> period_index s < 20)
           \<and> (max (py_int (sum_list (map weekly_hours
                       (filter (\<lambda>c. instructor_id c = i_id x) cs)) * 2) * 3) 30
                 \<le> int (length (availability x))
               \<or> set WEEKDAYS \<subseteq> day ` set (availability x))"
proof -
  obtain cpi thpi where t: "tally_courses cs Map.empty Map.empty = (cpi, thpi)"
    by (cases "tally_courses cs Map.empty Map.empty")
  with assms have l: "instructors_loop cpi thpi [0..<nat ni] g = (ins, g')"
    by (simp add: generate_instructors_def)
  from instructors_loop_ids[OF l]
  show "map i_id ins = map (\<lambda>i. ''PROF'' @ fmt_0d 3 (int i)) [0..<nat ni]" .
  assume "x \<in> set ins"
  from instructors_loop_elem[OF l this] obtain i g0 g1 where
    x: "gen_instructor cpi thpi i g0 = (x, g1)" by blast
  have "get0 thpi k = sum_list (map weekly_hours (filter (\<lambda>c. instructor_id c = k) cs))" for k
    using tally_courses_hours[OF t, of k] by (simp add: get0_def)
  with gen_instructor_props[OF x]
  show "distinct (availability x)
           \<and> (\<forall>s \<in> set (availability x). day s \<in> set WEEKDAYS \<and> period_index s < 20)
           \<and> (max (py_int (sum_list (map weekly_hours
                       (filter (\<lambda>c. instructor_id c = i_id x) cs)) * 2) * 3) 30
                 \<le> int (length (availability x))
               \<or> set WEEKDAYS \<subseteq> day ` set (availability x))"
    by simp
qed

lemma generate_courses_Inr:
  assumes "generate_courses nc ni g = Inr (cs, g')"
  shows "map c_id cs = map (\<lambda>i. ''COURSE'' @ fmt_0d 3 (int i)) [0..<nat nc]"
    and "map instructor_id cs = map (\<lambda>i. ''PROF'' @ fmt_0d 3 (int i mod ni)) [0..<nat nc]"
    and "\<forall>c \<in> set cs. weekly_hours c = 3 / 2 \<or> weekly_hours c = 3"
proof -
  obtain names g1 where "generate_course_names nc g = (names, g1)"
    by (cases "generate_course_names nc g")
  with assms have "courses_loop ni names [0..<nat nc] g1 = Inr (cs, g')"
    by (simp add: generate_courses_def)
  from courses_loop_Inr[OF this]
  show "map c_id cs = map (\<lambda>i. ''COURSE'' @ fmt_0d 3 (int i)) [0..<nat nc]"
    and "map instructor_id cs = map (\<lambda>i. ''PROF'' @ fmt_0d 3 (int i mod ni)) [0..<nat nc]"
    and "\<forall>c \<in> set cs. weekly_hours c = 3 / 2 \<or> weekly_hours c = 3"
    by blast+
qed

text \<open>
  C8. The availability list of every generated instructor is a set of slots: no pair of day
  and period occurs twice, every day is one of the five weekdays and every period index
  is between 0 and 19. This holds for whatever catalogue the instructors are generated
  for; deleting \<open>_debug\<close> afterwards does not touch the list.
\<close>

theorem availability_is_a_set:
  assumes "generate_instructors ni nc cs g = (ins, g')" and "x \<in> set ins"
  shows "distinct (map (\<lambda>s. (day s, period_index s)) (availability x))
         \<and> (\<forall>s \<in> set (availability x).
               day s \<in> set [''Mon'', ''Tue'', ''Wed'', ''Thu'', ''Fri''] \<and> period_index s \<le> 19)"
proof -
  from generate_instructors_props(2)[OF assms] have
    d: "distinct (availability x)" and
    r: "\<forall>s \<in> set (availability x). day s \<in> set WEEKDAYS \<and> period_index s < 20"
    by blast+
  have "inj_on (\<lambda>s. (day s, period_index s)) (set (availability x))"
    by (rule inj_onI) simp
  with d have "distinct (map (\<lambda>s. (day s, period_index s)) (availability x))"
    by (simp add: distinct_map)
  moreover from r have "\<forall>s \<in> set (availability x).
      day s \<in> set [''Mon'', ''Tue'', ''Wed'', ''Thu'', ''Fri''] \<and> period_index s \<le> 19"
    by (auto simp: WEEKDAYS_def)
  ultimately show ?thesis by blast
qed

theorem availability_is_a_set_witness:
  "\<exists>ins g' x. generate_instructors 2 0 [] [1, 1, 1, 0, 3] = (ins, g') \<and> x \<in> set ins
     \<and> distinct (map (\<lambda>s. (day s, period_index s)) (availability x))
     \<and> (\<forall>s \<in> set (availability x).
           day s \<in> set [''Mon'', ''Tue'', ''Wed'', ''Thu'', ''Fri''] \<and> period_index s \<le> 19)"
proof -
  obtain ins g' where run: "generate_instructors 2 0 [] [1, 1, 1, 0, 3] = (ins, g')"
    by (cases "generate_instructors 2 0 [] [1, 1, 1, 0, 3]")
  have "length (fst (generate_instructors 2 0 [] [1, 1, 1, 0, 3])) = 2" by code_simp
  with run have "ins \<noteq> []" by auto
  then obtain x where x: "x \<in> set ins" by (cases ins) auto
  from availability_is_a_set[OF run x] run x show ?thesis by blast
qed

text \<open>
  C2. In every generated instance, an instructor whose courses sum to a positive number of
  required hours has at least three times that many hours of availability (half an hour per
  entry of the list), or else all five weekdays occur in the availability, so that the
  top-up loop had no day left to add.
\<close>

theorem availability_covers_load:
  assumes "generate_complete_input nc ni nr ns nw now g = Inr (doc, g')"
    and "x \<in> set (instructors doc)"
    and "required_hours =
           sum_list (map weekly_hours (filter (\<lambda>c. instructor_id c = i_id x) (courses doc)))"
    and "available_hours = rat_of_nat (length (availability x)) * (1 / 2)"
    and "0 < required_hours"
  shows "3 * required_hours \<le> available_hours
         \<or> set [''Mon'', ''Tue'', ''Wed'', ''Thu'', ''Fri''] \<subseteq> day ` set (availability x)"
proof -
  from assms(1) obtain cs g1 ins g2 where
    cs: "generate_courses nc ni g = Inr (cs, g1)" and
    ins: "generate_instructors ni nc cs g1 = (ins, g2)" and
    dc: "courses doc = cs" and di: "instructors doc = map (\<lambda>x. x\<lparr>i_debug := None\<rparr>) ins"
    by (auto elim!: generate_complete_input_Inr)
  from assms(2) di obtain x0 where x0: "x0 \<in> set ins" and xx: "x = x0\<lparr>i_debug := None\<rparr>" by auto
  have same: "availability x = availability x0" "i_id x = i_id x0" by (simp_all add: xx)
  let ?mine = "filter (\<lambda>c. instructor_id c = i_id x) cs"
  have req: "required_hours = sum_list (map weekly_hours ?mine)" using assms(3) dc by simp
  from generate_courses_Inr(3)[OF cs]
  have "\<forall>c \<in> set ?mine. weekly_hours c = 3 / 2 \<or> weekly_hours c = 3" by simp
  from hours_twice_integral[OF this] obtain n :: nat where
    n: "required_hours * 2 = rat_of_nat n" unfolding req by blast
  from generate_instructors_props(2)[OF ins x0] have
    "max (py_int (required_hours * 2) * 3) 30 \<le> int (length (availability x))
       \<or> set WEEKDAYS \<subseteq> day ` set (availability x)"
    unfolding req same by blast
  then show ?thesis
  proof
    assume "max (py_int (required_hours * 2) * 3) 30 \<le> int (length (availability x))"
    then have "int n * 3 \<le> int (length (availability x))"
      by (simp add: n py_int_of_nat)
    then have "rat_of_int (int n * 3) \<le> rat_of_int (int (length (availability x)))"
      by (simp only: of_int_le_iff)
    then have "rat_of_nat n * 3 \<le> rat_of_nat (length (availability x))" by simp
    then have "3 * required_hours \<le> available_hours"
      unfolding assms(4) n[symmetric] by simp
    then show ?thesis ..
  next
    assume "set WEEKDAYS \<subseteq> day ` set (availability x)"
    then show ?thesis by (simp add: WEEKDAYS_def)
  qed
qed

theorem availability_covers_load_witness:
  "\<exists>doc g' x. generate_complete_input 2 1 1 1 1 ''2025-01-06T09:00:00'' [] = Inr (doc, g')
     \<and> x \<in> set (instructors doc)
     \<and> 0 < sum_list (map weekly_hours (filter (\<lambda>c. instructor_id c = i_id x) (courses doc)))
     \<and> (3 * sum_list (map weekly_hours (filter (\<lambda>c. instructor_id c = i_id x) (courses doc)))
           \<le> rat_of_nat (length (availability x)) * (1 / 2)
         \<or> set [''Mon'', ''Tue'', ''Wed'', ''Thu'', ''Fri''] \<subseteq> day ` set (availability x))"
proof -
  have e: "map_sum id (\<lambda>r. map (\<lambda>x. 0 < sum_list (map weekly_hours
               (filter (\<lambda>c. instructor_id c = i_id x) (courses (fst r))))) (instructors (fst r)))
             (generate_complete_input 2 1 1 1 1 ''2025-01-06T09:00:00'' []) = Inr [True]"
    by code_simp
  then obtain doc g' where
    run: "generate_complete_input 2 1 1 1 1 ''2025-01-06T09:00:00'' [] = Inr (doc, g')"
    by (cases "generate_complete_input 2 1 1 1 1 ''2025-01-06T09:00:00'' []") auto
  from e run have m: "map (\<lambda>x. 0 < sum_list (map weekly_hours
               (filter (\<lambda>c. instructor_id c = i_id x) (courses doc)))) (instructors doc) = [True]"
    by simp
  then obtain x where xs: "instructors doc = [x]" by (cases "instructors doc") auto
  with m have pos: "0 < sum_list (map weekly_hours
               (filter (\<lambda>c. instructor_id c = i_id x) (courses doc)))" by simp
  from xs have x: "x \<in> set (instructors doc)" by simp
  from availability_covers_load[OF run x refl refl pos] run x pos show ?thesis by blast
qed

subsection \<open>Identifiers are read back from their digits\<close>

lemma digit_char_value:
  assumes "d < 10"
  shows "of_char (digit_char d) - 48 = d"
proof -
  from assms have "d = 0 \<or> d = 1 \<or> d = 2 \<or> d = 3 \<or> d = 4 \<or> d = 5 \<or> d = 6 \<or> d = 7
      \<or> d = 8 \<or> d = 9" by arith
  then show ?thesis by (auto simp: digit_char_def)
qed

lemma read_dec:
  "foldl (\<lambda>a c. 10 * a + (of_char c - 48)) (0::nat) (dec n) = n"
proof (induction n rule: dec.induct)
  case (1 n)
  show ?case
  proof (cases "n < 10")
    case True
    then show ?thesis by (simp add: dec.simps[of n] digit_char_value)
  next
    case False
    with 1 have "foldl (\<lambda>a c. 10 * a + (of_char c - 48)) (0::nat) (dec (n div 10)) = n div 10"
      by simp
    moreover have "of_char (digit_char (n mod 10)) - 48 = n mod 10"
      by (rule digit_char_value) simp
    ultimately show ?thesis using False by (simp add: dec.simps[of n])
  qed
qed

lemma read_zeros:
  "foldl (\<lambda>a c. 10 * a + (of_char c - 48)) (0::nat) (replicate k CHR ''0'') = 0"
  by (induction k) simp_all

lemma read_fmt_0d:
  "foldl (\<lambda>a c. 10 * a + (of_char c - 48)) (0::nat) (fmt_0d w (int i)) = i"
  by (simp add: fmt_0d_def zfill_def read_zeros read_dec)

lemma fmt_0d_inj: "fmt_0d w (int i) = fmt_0d w (int j) \<Longrightarrow> i = j"
  by (metis read_fmt_0d)

lemma generated_course_ids_distinct:
  assumes "generate_courses nc ni g = Inr (cs, g')"
  shows "distinct (map c_id cs)"
proof -
  have "inj_on (\<lambda>i. ''COURSE'' @ fmt_0d 3 (int i)) (set [0..<nat nc])"
    by (rule inj_onI) (simp add: fmt_0d_inj)
  then have "distinct (map (\<lambda>i. ''COURSE'' @ fmt_0d 3 (int i)) [0..<nat nc])"
    by (simp add: distinct_map)
  with generate_courses_Inr(1)[OF assms] show ?thesis by simp
qed

subsection \<open>Students\<close>

lemma enroll_loop_props:
  assumes "distinct (map c_id avail)" and "distinct enrolled"
    and "set enrolled \<inter> c_id ` set avail = {}"
    and "enroll_loop k probs avail enrolled g = (res, g')"
  shows "distinct res \<and> set res \<subseteq> set enrolled \<union> c_id ` set avail
         \<and> length res = length enrolled + min k (length avail)"
  using assms
proof (induction k arbitrary: avail enrolled g)
  case 0
  then show ?case by simp
next
  case (Suc k)
  show ?case
  proof (cases "avail = []")
    case True
    with Suc.prems show ?thesis by simp
  next
    case False
    obtain lvl g1 where lvl: "choices (map fst probs) (map snd probs) g = (lvl, g1)"
      by (cases "choices (map fst probs) (map snd probs) g")
    let ?at_level = "filter (\<lambda>c. level c = lvl) avail"
    let ?candidates = "if ?at_level = [] then avail else ?at_level"
    have cne: "?candidates \<noteq> []" using False by simp
    have csub: "set ?candidates \<subseteq> set avail" by auto
    obtain c g2 where c: "choice ?candidates g1 = (c, g2)" by (cases "choice ?candidates g1")
    from choice_in_set[OF cne c] csub have cin: "c \<in> set avail" by blast
    from Suc.prems(4)[unfolded enroll_loop.simps Let_def lvl prod.case] False
    have "(if ?candidates \<noteq> []
           then (case choice ?candidates g1 of
                   (c, g2) \<Rightarrow> enroll_loop k probs (remove1 c avail) (enrolled @ [c_id c]) g2)
           else enroll_loop k probs avail enrolled g1) = (res, g')"
      by (simp only: if_False)
    then have rec: "enroll_loop k probs (remove1 c avail) (enrolled @ [c_id c]) g2 = (res, g')"
      unfolding if_P[OF cne] c prod.case .
    from Suc.prems(1) have da: "distinct avail" and inj: "inj_on c_id (set avail)"
      by (simp_all add: distinct_map)
    have set': "set (remove1 c avail) = set avail - {c}" using da by simp
    have d1: "distinct (map c_id (remove1 c avail))"
      using da inj set' by (simp add: distinct_map inj_on_diff)
    have fresh: "c_id c \<notin> c_id ` set (remove1 c avail)"
      using inj cin set' by (auto simp: inj_on_def)
    have notin: "c_id c \<notin> set enrolled" using Suc.prems(3) cin by blast
    have d2: "distinct (enrolled @ [c_id c])" using Suc.prems(2) notin by simp
    have d3: "set (enrolled @ [c_id c]) \<inter> c_id ` set (remove1 c avail) = {}"
      using Suc.prems(3) fresh set' by auto
    from Suc.IH[OF d1 d2 d3 rec] have
      r1: "distinct res" and
      r2: "set res \<subseteq> set (enrolled @ [c_id c]) \<union> c_id ` set (remove1 c avail)" and
      r3: "length res = length (enrolled @ [c_id c]) + min k (length (remove1 c avail))"
      by blast+
    have "length (remove1 c avail) = length avail - 1" using cin by (simp add: length_remove1)
    with r3 False have l: "length res = length enrolled + min (Suc k) (length avail)"
      by (cases avail) auto
    have "set res \<subseteq> set enrolled \<union> c_id ` set avail" using r2 set' cin by auto
    with r1 l show ?thesis by blast
  qed
qed

lemma gen_student_props:
  assumes "distinct (map c_id cs)" and "gen_student cs i g = (s, g')"
  shows "distinct (enrolled_course_ids s)
         \<and> set (enrolled_course_ids s) \<subseteq> c_id ` set cs
         \<and> (\<exists>n \<in> {2, 3, 4, 5}. length (enrolled_course_ids s) = min n (length cs))"
proof -
  obtain yr g1 where yr: "choices (map fst STUDENT_YEARS) (map snd STUDENT_YEARS) g = (yr, g1)"
    by (cases "choices (map fst STUDENT_YEARS) (map snd STUDENT_YEARS) g")
  obtain n g2 where
    n: "(if yr = ''graduate'' then choice [2, 3, 4::nat] g1 else choice [3, 4, 5] g1) = (n, g2)"
    by (cases "if yr = ''graduate'' then choice [2, 3, 4::nat] g1 else choice [3, 4, 5] g1")
  obtain en g3 where en: "enroll_loop n (level_probs yr) cs [] g2 = (en, g3)"
    by (cases "enroll_loop n (level_probs yr) cs [] g2")
  obtain fn g4 where fn: "choice student_names g3 = (fn, g4)" by (cases "choice student_names g3")
  from assms(2)[unfolded gen_student_def Let_def yr n en fn prod.case]
  have s: "enrolled_course_ids s = en" by auto
  have nn: "n \<in> {2, 3, 4, 5}"
  proof (cases "yr = ''graduate''")
    case True
    with n have "choice [2, 3, 4::nat] g1 = (n, g2)" by simp
    from choice_in_set[OF _ this] show ?thesis by auto
  next
    case False
    with n have "choice [3, 4, 5::nat] g1 = (n, g2)" by simp
    from choice_in_set[OF _ this] show ?thesis by auto
  qed
  from enroll_loop_props[OF assms(1) _ _ en] have
    "distinct en \<and> set en \<subseteq> c_id ` set cs \<and> length en = min n (length cs)" by simp
  with s nn show ?thesis by blast
qed

lemma students_loop_elem:
  "students_loop cs idxs g = (xs, g') \<Longrightarrow> s \<in> set xs
     \<Longrightarrow> \<exists>i g0 g1. gen_student cs i g0 = (s, g1)"
proof (induction idxs arbitrary: g xs g')
  case Nil
  then show ?case by simp
next
  case (Cons i idxs)
  obtain y g1 where y: "gen_student cs i g = (y, g1)" by (cases "gen_student cs i g")
  obtain ys g2 where ys: "students_loop cs idxs g1 = (ys, g2)"
    by (cases "students_loop cs idxs g1")
  from Cons.prems(1) y ys have "xs = y # ys" by simp
  with Cons.prems(2) have "s = y \<or> s \<in> set ys" by simp
  then show ?case
  proof
    assume "s = y" with y show ?thesis by blast
  next
    assume "s \<in> set ys" from Cons.IH[OF ys this] show ?thesis .
  qed
qed

lemma generate_students_props:
  assumes "distinct (map c_id cs)" and "generate_students ns cs g = (studs, g')"
    and "s \<in> set studs"
  shows "distinct (enrolled_course_ids s)
         \<and> set (enrolled_course_ids s) \<subseteq> c_id ` set cs
         \<and> (\<exists>n \<in> {2, 3, 4, 5}. length (enrolled_course_ids s) = min n (length cs))"
proof -
  from assms(2) have "students_loop cs [0..<nat ns] g = (studs, g')"
    by (simp add: generate_students_def)
  from students_loop_elem[OF this assms(3)] obtain i g0 g1 where
    "gen_student cs i g0 = (s, g1)" by blast
  from gen_student_props[OF assms(1) this] show ?thesis .
qed

text \<open>
  C4, as the program has it. A student takes \<open>min(num_courses_to_take, number of courses)\<close>
  courses, \<open>num_courses_to_take\<close> being one of 2, 3, 4, 5: the loop leaves with \<open>break\<close>
  once the pool of the student is empty. So in every generated instance the list
  \<open>enrolled_course_ids\<close> of a student has exactly that many entries, which is at most 5
  and at least 2 when the catalogue has at least two courses (as many as the catalogue has
  otherwise), and no course id twice.
\<close>

theorem enrollment_bounds:
  assumes "generate_complete_input nc ni nr ns nw now g = Inr (doc, g')"
    and "s \<in> set (students doc)"
  shows "(\<exists>num_courses_to_take \<in> {2, 3, 4, 5}.
            length (enrolled_course_ids s) = min num_courses_to_take (length (courses doc)))
         \<and> length (enrolled_course_ids s) \<le> 5
         \<and> min 2 (length (courses doc)) \<le> length (enrolled_course_ids s)
         \<and> distinct (enrolled_course_ids s)"
proof -
  from assms(1) obtain cs g1 g3 where
    cs: "generate_courses nc ni g = Inr (cs, g1)" and
    st: "generate_students ns cs g3 = (students doc, g')" and
    dc: "courses doc = cs"
    by (auto elim!: generate_complete_input_Inr)
  from generate_students_props[OF generated_course_ids_distinct[OF cs] st assms(2)]
  obtain n where n: "n \<in> {2, 3, 4, 5::nat}"
    and l: "length (enrolled_course_ids s) = min n (length cs)"
    and d: "distinct (enrolled_course_ids s)" by blast
  from n l have "length (enrolled_course_ids s) \<le> 5"
    "min 2 (length cs) \<le> length (enrolled_course_ids s)" by auto
  moreover from n l have "\<exists>n \<in> {2, 3, 4, 5}. length (enrolled_course_ids s) = min n (length cs)"
    by blast
  ultimately show ?thesis using d unfolding dc by blast
qed

theorem enrollment_bounds_witness:
  "\<exists>doc g' s. generate_complete_input 2 1 1 2 1 ''2025-01-06T09:00:00'' [] = Inr (doc, g')
     \<and> s \<in> set (students doc)
     \<and> length (courses doc) = 2
     \<and> map (length \<circ> enrolled_course_ids) (students doc) = [2, 2]
     \<and> (\<exists>num_courses_to_take \<in> {2, 3, 4, 5}.
            length (enrolled_course_ids s) = min num_courses_to_take (length (courses doc)))
     \<and> length (enrolled_course_ids s) \<le> 5
     \<and> min 2 (length (courses doc)) \<le> length (enrolled_course_ids s)
     \<and> distinct (enrolled_course_ids s)"
proof -
  have e: "map_sum id (\<lambda>r. (length (courses (fst r)),
                           map (length \<circ> enrolled_course_ids) (students (fst r))))
             (generate_complete_input 2 1 1 2 1 ''2025-01-06T09:00:00'' []) = Inr (2, [2, 2])"
    by code_simp
  then obtain doc g' where
    run: "generate_complete_input 2 1 1 2 1 ''2025-01-06T09:00:00'' [] = Inr (doc, g')"
    by (cases "generate_complete_input 2 1 1 2 1 ''2025-01-06T09:00:00'' []") auto
  with e have c: "length (courses doc) = 2"
    and m: "map (length \<circ> enrolled_course_ids) (students doc) = [2, 2]" by simp_all
  from m obtain s where s: "s \<in> set (students doc)" by (cases "students doc") auto
  note t = enrollment_bounds[OF run s]
  show ?thesis
    by (intro exI[of _ doc] exI[of _ g'] exI[of _ s] conjI)
       (rule run s c m t[THEN conjunct1] t[THEN conjunct2, THEN conjunct1]
          t[THEN conjunct2, THEN conjunct2, THEN conjunct1]
          t[THEN conjunct2, THEN conjunct2, THEN conjunct2])+
qed

text \<open>
  C4, as stated, asks for at least two courses per student. With a catalogue of one
  course, the one student of this run is enrolled in one course.
\<close>

theorem enrollment_bounds_counterexample:
  "map_sum id (map (length \<circ> enrolled_course_ids) \<circ> students \<circ> fst)
     (generate_complete_input 1 1 1 1 1 ''2025-01-06T09:00:00'' []) = Inr [1]"
  by code_simp

text \<open>
  C9. In every assembled instance, when \<open>num_instructors \<ge> 1\<close>, the \<open>instructor_id\<close> of
  every course is the id of one of the instructor records, and every id in the
  \<open>enrolled_course_ids\<close> of a student is the id of one of the course records.
\<close>

theorem referential_integrity:
  assumes "generate_complete_input nc ni nr ns nw now g = Inr (doc, g')"
  shows "(1 \<le> ni \<longrightarrow> (\<forall>c \<in> set (courses doc). instructor_id c \<in> i_id ` set (instructors doc)))
         \<and> (\<forall>s \<in> set (students doc). set (enrolled_course_ids s) \<subseteq> c_id ` set (courses doc))"
proof -
  from assms(1) obtain cs g1 ins g2 g3 where
    cs: "generate_courses nc ni g = Inr (cs, g1)" and
    ins: "generate_instructors ni nc cs g1 = (ins, g2)" and
    st: "generate_students ns cs g3 = (students doc, g')" and
    dc: "courses doc = cs" and di: "instructors doc = map (\<lambda>x. x\<lparr>i_debug := None\<rparr>) ins"
    by (auto elim!: generate_complete_input_Inr)
  have ids: "i_id ` set (instructors doc) = (\<lambda>i. ''PROF'' @ fmt_0d 3 (int i)) ` set [0..<nat ni]"
  proof -
    have "map i_id (instructors doc) = map i_id ins" by (simp add: di comp_def)
    also have "\<dots> = map (\<lambda>i. ''PROF'' @ fmt_0d 3 (int i)) [0..<nat ni]"
      by (rule generate_instructors_props(1)[OF ins])
    finally have "set (map i_id (instructors doc))
        = set (map (\<lambda>i. ''PROF'' @ fmt_0d 3 (int i)) [0..<nat ni])" by simp
    then show ?thesis by (simp only: set_map)
  qed
  have part1: "instructor_id c \<in> i_id ` set (instructors doc)"
    if pos: "1 \<le> ni" and c: "c \<in> set cs" for c
  proof -
    from c have "instructor_id c \<in> set (map instructor_id cs)" by simp
    then have "instructor_id c
        \<in> set (map (\<lambda>i. ''PROF'' @ fmt_0d 3 (int i mod ni)) [0..<nat nc])"
      by (simp only: generate_courses_Inr(2)[OF cs])
    then obtain k where k: "instructor_id c = ''PROF'' @ fmt_0d 3 (int k mod ni)" by auto
    define j where "j = nat (int k mod ni)"
    from pos have "0 \<le> int k mod ni" "int k mod ni < ni" by simp_all
    then have "int j = int k mod ni" "j < nat ni" by (simp_all add: j_def)
    with k have "instructor_id c = ''PROF'' @ fmt_0d 3 (int j)" "j \<in> set [0..<nat ni]"
      by simp_all
    then show ?thesis unfolding ids by blast
  qed
  have part2: "set (enrolled_course_ids s) \<subseteq> c_id ` set cs" if "s \<in> set (students doc)" for s
    using generate_students_props[OF generated_course_ids_distinct[OF cs] st that] by blast
  from part1 part2 show ?thesis unfolding dc by blast
qed

theorem referential_integrity_witness:
  "\<exists>doc g'. generate_complete_input 5 3 4 2 2 ''2025-01-06T09:00:00'' [7, 2] = Inr (doc, g')
     \<and> (1::int) \<le> 3
     \<and> (\<forall>c \<in> set (courses doc). instructor_id c \<in> i_id ` set (instructors doc))
     \<and> (\<forall>s \<in> set (students doc). set (enrolled_course_ids s) \<subseteq> c_id ` set (courses doc))"
proof -
  have "\<not> isl (generate_complete_input 5 3 4 2 2 ''2025-01-06T09:00:00'' [7, 2])"
    by code_simp
  then obtain doc g' where
    run: "generate_complete_input 5 3 4 2 2 ''2025-01-06T09:00:00'' [7, 2] = Inr (doc, g')"
    by (cases "generate_complete_input 5 3 4 2 2 ''2025-01-06T09:00:00'' [7, 2]") auto
  have h: "(1::int) \<le> 3" by simp
  from referential_integrity[OF run] h run show ?thesis by blast
qed

subsection \<open>The feasibility checks\<close>

lemma group_course_keys:
  assumes "group_course c (cbi, hbi) = (cbi', hbi')" and "fst ` set hbi = fst ` set cbi"
  shows "fst ` set cbi' = insert (instructor_id c) (fst ` set cbi)
         \<and> fst ` set hbi' = fst ` set cbi'"
proof (cases "map_of cbi (instructor_id c) = None")
  case True
  with assms(1) have
    "cbi' = AList.map_entry (instructor_id c) (\<lambda>cs. cs @ [c])
              (AList.update (instructor_id c) [] cbi)"
    "hbi' = AList.map_entry (instructor_id c) (\<lambda>h. h + weekly_hours c)
              (AList.update (instructor_id c) 0 hbi)"
    by (simp_all add: group_course_def Let_def)
  then show ?thesis using assms(2) by (simp add: AList.dom_map_entry AList.dom_update)
next
  case False
  then have k: "instructor_id c \<in> fst ` set cbi" by (simp add: map_of_eq_None_iff)
  from assms(1)[unfolded group_course_def Let_def prod.case if_not_P[OF False]] have
    "cbi' = AList.map_entry (instructor_id c) (\<lambda>cs. cs @ [c]) cbi"
    "hbi' = AList.map_entry (instructor_id c) (\<lambda>h. h + weekly_hours c) hbi"
    by simp_all
  then show ?thesis using assms(2) k by (simp add: AList.dom_map_entry insert_absorb)
qed

lemma fold_group_course_keys:
  assumes "fold group_course cs (cbi, hbi) = (cbi', hbi')" and "fst ` set hbi = fst ` set cbi"
  shows "fst ` set cbi' = fst ` set cbi \<union> instructor_id ` set cs
         \<and> fst ` set hbi' = fst ` set cbi'"
  using assms
proof (induction cs arbitrary: cbi hbi)
  case Nil
  then show ?case by simp
next
  case (Cons c cs)
  obtain cbi1 hbi1 where s: "group_course c (cbi, hbi) = (cbi1, hbi1)"
    by (cases "group_course c (cbi, hbi)")
  from group_course_keys[OF s Cons.prems(2)] have
    k1: "fst ` set cbi1 = insert (instructor_id c) (fst ` set cbi)" and
    k2: "fst ` set hbi1 = fst ` set cbi1" by blast+
  from Cons.prems(1) s have "fold group_course cs (cbi1, hbi1) = (cbi', hbi')" by simp
  from Cons.IH[OF this k2] k1 show ?case by auto
qed

lemma instructor_dict_dom:
  "dom (fold (\<lambda>x d. d(i_id x \<mapsto> x)) ins d0) = dom d0 \<union> i_id ` set ins"
  by (induction ins arbitrary: d0) auto

lemma check_instructors_returns:
  assumes "\<forall>k \<in> fst ` set cbi. k \<in> dom instructor_dict \<and> k \<in> fst ` set hbi"
  shows "\<exists>out. check_instructors instructor_dict hbi cbi issues = Inr out"
  using assms
proof (induction cbi arbitrary: issues)
  case Nil
  then show ?case by simp
next
  case (Cons p cbi)
  obtain k inst_courses where p: "p = (k, inst_courses)" by (cases p)
  from Cons.prems p obtain x where x: "instructor_dict k = Some x" by auto
  from Cons.prems p have "k \<in> fst ` set hbi" by simp
  then obtain h where h: "map_of hbi k = Some h"
    by (metis map_of_eq_None_iff not_Some_eq)
  from Cons.prems have "\<forall>k \<in> fst ` set cbi. k \<in> dom instructor_dict \<and> k \<in> fst ` set hbi"
    by simp
  from Cons.IH[OF this] show ?case by (simp add: p x h Let_def)
qed

lemma check_feasibility_returns:
  assumes rooms: "classroom_list \<noteq> []"
    and known: "\<forall>c \<in> set course_list. instructor_id c \<in> i_id ` set instructor_list"
    and hours: "sum_list (map weekly_hours course_list) \<noteq> 0"
  shows "\<exists>issues. check_feasibility course_list instructor_list classroom_list nw = Inr issues
           \<and> (1 / 2 * (5 * 24) * rat_of_nat (length classroom_list)
                  < sum_list (map (\<lambda>c. weekly_hours c * 2) course_list)
                \<longrightarrow> Utilization (sum_list (map (\<lambda>c. weekly_hours c * 2) course_list)
                                 / rat_of_int (5 * 24 * int (length classroom_list)))
                      \<in> set issues)"
proof -
  from rooms obtain m where m: "py_max (map capacity classroom_list) = Inr m"
    by (cases classroom_list) auto
  define issues1 where "issues1 =
    map (\<lambda>c. RoomCapacity (c_id c) (expected_enrollment c) m)
      (filter (\<lambda>c. expected_enrollment c > m) course_list)"
  define instructor_dict where
    "instructor_dict = fold (\<lambda>x d. d(i_id x \<mapsto> x)) instructor_list Map.empty"
  obtain cbi hbi where t: "fold group_course course_list ([], []) = (cbi, hbi)"
    by (cases "fold group_course course_list ([], [])")
  from fold_group_course_keys[OF t] have
    k1: "fst ` set cbi = instructor_id ` set course_list" and
    k2: "fst ` set hbi = fst ` set cbi" by auto
  have "dom instructor_dict = i_id ` set instructor_list"
    by (simp add: instructor_dict_def instructor_dict_dom)
  with known k1 k2 have
    "\<forall>k \<in> fst ` set cbi. k \<in> dom instructor_dict \<and> k \<in> fst ` set hbi" by auto
  from check_instructors_returns[OF this] obtain issues2 where
    i2: "check_instructors instructor_dict hbi cbi issues1 = Inr issues2" by blast
  define total_course_hours where "total_course_hours = sum_list (map weekly_hours course_list)"
  define total_available_hours where "total_available_hours =
    sum_list (map (\<lambda>x. rat_of_nat (length (availability x)) * (1 / 2)) instructor_list)"
  define issues3 where "issues3 =
    (if total_available_hours < total_course_hours * 3
     then issues2 @ [TeachingLoad total_course_hours total_available_hours] else issues2)"
  define periods where "periods = sum_list (map (\<lambda>c. weekly_hours c * 2) course_list)"
  define divisor where "divisor = 5 * 24 * int (length classroom_list)"
  define issues4 where "issues4 =
    (if periods / rat_of_int divisor > 1 / 2
     then issues3 @ [Utilization (periods / rat_of_int divisor)] else issues3)"
  have dpos: "0 < divisor" using rooms by (simp add: divisor_def)
  have res: "check_feasibility course_list instructor_list classroom_list nw = Inr issues4"
    unfolding check_feasibility_def Let_def m sum.case t prod.case
      issues1_def[symmetric] instructor_dict_def[symmetric] i2
      total_course_hours_def[symmetric] total_available_hours_def[symmetric]
      issues3_def[symmetric] periods_def[symmetric] divisor_def[symmetric]
      issues4_def[symmetric]
    using dpos hours by (simp add: total_course_hours_def)
  have "Utilization (periods / rat_of_int divisor) \<in> set issues4"
    if "1 / 2 * (5 * 24) * rat_of_nat (length classroom_list) < periods"
  proof -
    have "rat_of_int divisor = 5 * 24 * rat_of_nat (length classroom_list)"
      by (simp add: divisor_def)
    with that have "1 / 2 * rat_of_int divisor < periods" by simp
    moreover have "0 < rat_of_int divisor" using dpos by simp
    ultimately have "1 / 2 < periods / rat_of_int divisor"
      by (simp add: pos_less_divide_eq)
    then show ?thesis by (simp add: issues4_def)
  qed
  with res show ?thesis unfolding periods_def divisor_def by blast
qed

lemma course_instructor_generated:
  assumes "1 \<le> ni" and "generate_courses nc ni g = Inr (cs, g1)"
    and "generate_instructors ni nc' cs' g1' = (ins, g2)" and "c \<in> set cs"
  shows "instructor_id c \<in> i_id ` set ins"
proof -
  from assms(4) have "instructor_id c \<in> set (map instructor_id cs)" by simp
  then have "instructor_id c
      \<in> set (map (\<lambda>i. ''PROF'' @ fmt_0d 3 (int i mod ni)) [0..<nat nc])"
    by (simp only: generate_courses_Inr(2)[OF assms(2)])
  then obtain k where k: "instructor_id c = ''PROF'' @ fmt_0d 3 (int k mod ni)" by auto
  define j where "j = nat (int k mod ni)"
  from assms(1) have "0 \<le> int k mod ni" "int k mod ni < ni" by simp_all
  then have "int j = int k mod ni" "j < nat ni" by (simp_all add: j_def)
  with k have "instructor_id c = ''PROF'' @ fmt_0d 3 (int j)" "j \<in> set [0..<nat ni]"
    by simp_all
  then have "instructor_id c \<in> set (map (\<lambda>i. ''PROF'' @ fmt_0d 3 (int i)) [0..<nat ni])"
    by auto
  then have "instructor_id c \<in> set (map i_id ins)"
    by (simp only: generate_instructors_props(1)[OF assms(3)])
  then show ?thesis by simp
qed

lemma positive_hours_sum:
  assumes "cs \<noteq> []" and "\<forall>c \<in> set cs. weekly_hours c = 3 / 2 \<or> weekly_hours c = 3"
  shows "0 < sum_list (map weekly_hours cs)"
  using assms
proof (induction cs)
  case Nil
  then show ?case by simp
next
  case (Cons c cs)
  from Cons.prems(2) have c: "0 < weekly_hours c" by auto
  show ?case
  proof (cases "cs = []")
    case True
    with c show ?thesis by simp
  next
    case False
    with Cons have "0 < sum_list (map weekly_hours cs)" by simp
    with c show ?thesis by simp
  qed
qed

text \<open>
  C5, as the program has it. On the collections that the generators return for
  \<open>num_instructors \<ge> 1\<close>, \<open>_check_feasibility\<close> raises nothing and returns its list of
  warnings; when the total of required periods exceeds \<open>0.5 * (5 * 24)\<close> times the number
  of classrooms, the utilization warning is in the list.
\<close>

theorem feasibility_check_returns:
  assumes "1 \<le> ni"
    and "generate_courses nc ni g = Inr (cs, g1)"
    and "generate_instructors ni nc cs g1 = (ins, g2)"
    and "generate_classrooms nr cs g2 = Inr (rooms, g3)"
  shows "\<exists>issues. check_feasibility cs ins rooms nw = Inr issues
           \<and> (1 / 2 * (5 * 24) * rat_of_nat (length rooms)
                  < sum_list (map (\<lambda>c. weekly_hours c * 2) cs)
                \<longrightarrow> Utilization (sum_list (map (\<lambda>c. weekly_hours c * 2) cs)
                                 / rat_of_int (5 * 24 * int (length rooms)))
                      \<in> set issues)"
proof -
  from generate_classrooms_Inr[OF assms(4)] have ne: "cs \<noteq> []" "rooms \<noteq> []" by blast+
  have known: "\<forall>c \<in> set cs. instructor_id c \<in> i_id ` set ins"
    using course_instructor_generated[OF assms(1,2,3)] by blast
  from positive_hours_sum[OF ne(1) generate_courses_Inr(3)[OF assms(2)]]
  have "sum_list (map weekly_hours cs) \<noteq> 0" by simp
  from check_feasibility_returns[OF ne(2) known this] show ?thesis .
qed

theorem feasibility_check_returns_witness:
  "(1::int) \<le> 1 \<and>
   (\<exists>cs g1 ins g2 rooms g3 issues.
      generate_courses 21 1 [] = Inr (cs, g1)
      \<and> generate_instructors 1 21 cs g1 = (ins, g2)
      \<and> generate_classrooms 1 cs g2 = Inr (rooms, g3)
      \<and> check_feasibility cs ins rooms 10 = Inr issues
      \<and> 1 / 2 * (5 * 24) * rat_of_nat (length rooms)
            < sum_list (map (\<lambda>c. weekly_hours c * 2) cs)
      \<and> Utilization (sum_list (map (\<lambda>c. weekly_hours c * 2) cs)
                       / rat_of_int (5 * 24 * int (length rooms))) \<in> set issues)"
proof -
  have e: "(case generate_courses 21 1 [] of
              Inl e \<Rightarrow> False
            | Inr (cs, g1) \<Rightarrow>
                (case generate_classrooms 1 cs (snd (generate_instructors 1 21 cs g1)) of
                   Inl e \<Rightarrow> False
                 | Inr (rooms, g3) \<Rightarrow>
                     1 / 2 * (5 * 24) * rat_of_nat (length rooms)
                       < sum_list (map (\<lambda>c. weekly_hours c * 2) cs)))"
    by code_simp
  then obtain cs g1 where cs: "generate_courses 21 1 [] = Inr (cs, g1)"
    by (cases "generate_courses 21 1 []") auto
  obtain ins g2 where ins: "generate_instructors 1 21 cs g1 = (ins, g2)"
    by (cases "generate_instructors 1 21 cs g1")
  from e cs ins obtain rooms g3 where rooms: "generate_classrooms 1 cs g2 = Inr (rooms, g3)"
    by (cases "generate_classrooms 1 cs g2") auto
  from e cs ins rooms have
    big: "1 / 2 * (5 * 24) * rat_of_nat (length rooms) < sum_list (map (\<lambda>c. weekly_hours c * 2) cs)"
    by simp
  have h: "(1::int) \<le> 1" by simp
  from feasibility_check_returns[OF h cs ins rooms, of 10] obtain issues where
    "check_feasibility cs ins rooms 10 = Inr issues"
    "Utilization (sum_list (map (\<lambda>c. weekly_hours c * 2) cs)
                       / rat_of_int (5 * 24 * int (length rooms))) \<in> set issues"
    using big by blast
  with h cs ins rooms big show ?thesis by blast
qed

text \<open>
  C5, as stated, lets nothing be raised on generated collections. With
  \<open>num_instructors = -1\<close> the three generators return (the one course names \<open>PROF000\<close>,
  since \<open>0 % -1 = 0\<close>, and no instructor is generated), and the check of the instructors
  raises \<open>KeyError\<close> at \<open>instructor_dict[inst_id]\<close>.
\<close>

theorem feasibility_check_counterexample:
  "generate_courses 1 (- 1) [] =
     Inr ([\<lparr>c_id = ''COURSE000'', c_name = ''CS 100: Introduction'', c_type = ''full_term'',
             weekly_hours = 3 / 2, instructor_id = ''PROF000'', expected_enrollment = 80,
             level = ''100'', c_department = ''Computer Science''\<rparr>], [])
   \<and> generate_instructors (- 1) 1
        [\<lparr>c_id = ''COURSE000'', c_name = ''CS 100: Introduction'', c_type = ''full_term'',
          weekly_hours = 3 / 2, instructor_id = ''PROF000'', expected_enrollment = 80,
          level = ''100'', c_department = ''Computer Science''\<rparr>] [] = ([], [])
   \<and> generate_classrooms 1
        [\<lparr>c_id = ''COURSE000'', c_name = ''CS 100: Introduction'', c_type = ''full_term'',
          weekly_hours = 3 / 2, instructor_id = ''PROF000'', expected_enrollment = 80,
          level = ''100'', c_department = ''Computer Science''\<rparr>] [] =
     Inr ([\<lparr>r_id = ''ROOM000'', r_name = ''Gates 100'', capacity = 120\<rparr>], [])
   \<and> check_feasibility
        [\<lparr>c_id = ''COURSE000'', c_name = ''CS 100: Introduction'', c_type = ''full_term'',
          weekly_hours = 3 / 2, instructor_id = ''PROF000'', expected_enrollment = 80,
          level = ''100'', c_department = ''Computer Science''\<rparr>]
        []
        [\<lparr>r_id = ''ROOM000'', r_name = ''Gates 100'', capacity = 120\<rparr>] 10 = Inl KeyError"
  by code_simp

subsection \<open>Reproducibility\<close>

text \<open>
  C1, as the program has it. A run constructs the generator with the seed and generates one
  instance. Two such runs with the same seed and the same parameters, started in whatever
  states \<open>g1\<close> and \<open>g2\<close> the random source was left in before and reading the clock at
  \<open>now1\<close> and \<open>now2\<close>, raise the same exception or return the same document and leave the
  same state, but for \<open>metadata.generated_at\<close>: the second run returns what the first
  returns with that one field replaced by its own reading of the clock.
\<close>

theorem same_seed_same_instance:
  "run_from_seed seed_state s nc ni nr ns nw now2 g2 =
     (case run_from_seed seed_state s nc ni nr ns nw now1 g1 of
        Inl e \<Rightarrow> Inl e
      | Inr (doc, g') \<Rightarrow>
          Inr (doc\<lparr>metadata := (metadata doc)\<lparr>generated_at := now2\<rparr>\<rparr>, g'))"
proof (cases "init seed_state s g1")
  case (Inl e)
  then have "init seed_state s g2 = Inl e" by (auto simp: init_def split: if_splits)
  with Inl show ?thesis by (simp add: run_from_seed_def)
next
  case (Inr g0)
  then have "init seed_state s g2 = Inr g0" by (auto simp: init_def split: if_splits)
  with Inr show ?thesis
    unfolding run_from_seed_def generate_complete_input_def Let_def
    by (simp split: sum.splits prod.splits)
qed

theorem same_seed_same_instance_witness:
  "\<not> isl (run_from_seed (replicate 3 \<circ> nat) 42 5 3 4 20 2 ''2025-01-06T09:00:00'' [])
   \<and> run_from_seed (replicate 3 \<circ> nat) 42 5 3 4 20 2 ''2025-01-06T09:00:01'' [1, 2, 3] =
     (case run_from_seed (replicate 3 \<circ> nat) 42 5 3 4 20 2 ''2025-01-06T09:00:00'' [] of
        Inl e \<Rightarrow> Inl e
      | Inr (doc, g') \<Rightarrow>
          Inr (doc\<lparr>metadata := (metadata doc)\<lparr>generated_at := ''2025-01-06T09:00:01''\<rparr>\<rparr>, g'))"
proof
  show "\<not> isl (run_from_seed (replicate 3 \<circ> nat) 42 5 3 4 20 2 ''2025-01-06T09:00:00'' [])"
    by code_simp
  show "run_from_seed (replicate 3 \<circ> nat) 42 5 3 4 20 2 ''2025-01-06T09:00:01'' [1, 2, 3] =
     (case run_from_seed (replicate 3 \<circ> nat) 42 5 3 4 20 2 ''2025-01-06T09:00:00'' [] of
        Inl e \<Rightarrow> Inl e
      | Inr (doc, g') \<Rightarrow>
          Inr (doc\<lparr>metadata := (metadata doc)\<lparr>generated_at := ''2025-01-06T09:00:01''\<rparr>\<rparr>, g'))"
    by (rule same_seed_same_instance)
qed

text \<open>
  The seed is used up by a call: a second call on the same generator starts where the first
  stopped, as the calls of \<open>generate_multiple_scenarios\<close> do. Here the first call takes
  the thirty draws \<open>0\<close> and the second finds the draw \<open>1\<close>: the same parameters and the
  same reading of the clock give two different catalogues.
\<close>

lemma second_call_is_not_reseeded:
  "(case generate_complete_input 1 1 1 1 1 ''2025-01-06T09:00:00'' (replicate 30 0 @ [1]) of
      Inl e \<Rightarrow> False
    | Inr (doc1, g1) \<Rightarrow>
        g1 = [1] \<and>
        (case generate_complete_input 1 1 1 1 1 ''2025-01-06T09:00:00'' g1 of
           Inl e \<Rightarrow> False
         | Inr (doc2, g2) \<Rightarrow>
             map c_name (courses doc1) = [''CS 100: Introduction'']
             \<and> map c_name (courses doc2) = [''MATH 100: Introduction'']))"
  by code_simp

text \<open>
  C1, as stated, makes the two documents equal, metadata included. The same state of the
  random source and the same parameters, read at two different times, give two different
  documents.
\<close>

theorem same_seed_counterexample:
  "generate_complete_input 1 1 1 1 1 ''2025-01-06T09:00:00'' []
     \<noteq> generate_complete_input 1 1 1 1 1 ''2025-01-06T09:00:01'' []"
  by code_simp

subsection \<open>The format of the instructor id\<close>

lemma digit_char_is_digit:
  assumes "d < 10"
  shows "digit_char d \<in> set ''0123456789''"
  unfolding digit_char_def using assms by (intro nth_mem) simp

lemma digit_char_nonzero:
  assumes "0 < d" and "d < 10"
  shows "digit_char d \<noteq> CHR ''0''"
proof -
  from assms have "d = 1 \<or> d = 2 \<or> d = 3 \<or> d = 4 \<or> d = 5 \<or> d = 6 \<or> d = 7 \<or> d = 8 \<or> d = 9"
    by arith
  then show ?thesis by (auto simp: digit_char_def)
qed

lemma dec_nonempty: "dec n \<noteq> []"
  by (subst dec.simps) simp

lemma dec_digits: "set (dec n) \<subseteq> set ''0123456789''"
proof (induction n rule: dec.induct)
  case (1 n)
  show ?case
  proof (cases "n < 10")
    case True
    with digit_char_is_digit[OF True] show ?thesis by (subst dec.simps) simp
  next
    case False
    have "n mod 10 < 10" by simp
    from digit_char_is_digit[OF this] 1[OF False] False show ?thesis
      by (subst dec.simps) simp
  qed
qed

lemma dec_short: "n < 10 \<Longrightarrow> length (dec n) = 1"
  by (subst dec.simps) simp

lemma dec_no_leading_zero: "10 \<le> n \<Longrightarrow> hd (dec n) \<noteq> CHR ''0''"
proof (induction n rule: dec.induct)
  case (1 n)
  from "1.prems" have big: "\<not> n < 10" by simp
  then have unf: "dec n = dec (n div 10) @ [digit_char (n mod 10)]" by (subst dec.simps) simp
  have hd_eq: "hd (dec n) = hd (dec (n div 10))" unfolding unf by (simp add: dec_nonempty)
  show ?case
  proof (cases "10 \<le> n div 10")
    case True
    from "1.IH"[OF big True] hd_eq show ?thesis by simp
  next
    case False
    then have small: "n div 10 < 10" by simp
    from "1.prems" have pos: "0 < n div 10" by simp
    from small have "dec (n div 10) = [digit_char (n div 10)]" by (subst dec.simps) simp
    with hd_eq digit_char_nonzero[OF pos small] show ?thesis by simp
  qed
qed

lemma fmt_0d_shape:
  "set (fmt_0d 3 (int n)) \<subseteq> set ''0123456789''
   \<and> 3 \<le> length (fmt_0d 3 (int n))
   \<and> (3 < length (fmt_0d 3 (int n)) \<longrightarrow> hd (fmt_0d 3 (int n)) \<noteq> CHR ''0'')"
proof -
  have s: "fmt_0d 3 (int n) = replicate (3 - length (dec n)) CHR ''0'' @ dec n"
    by (simp add: fmt_0d_def zfill_def)
  have a: "set (fmt_0d 3 (int n)) \<subseteq> set ''0123456789''"
    unfolding s using dec_digits[of n] by auto
  have b: "3 \<le> length (fmt_0d 3 (int n))" unfolding s by simp
  have c: "hd (fmt_0d 3 (int n)) \<noteq> CHR ''0''" if long: "3 < length (fmt_0d 3 (int n))"
  proof -
    from long have l: "3 < length (dec n)" unfolding s by (simp split: if_splits)
    then have "fmt_0d 3 (int n) = dec n" unfolding s by simp
    moreover have "10 \<le> n"
    proof (rule ccontr)
      assume "\<not> 10 \<le> n"
      then have "length (dec n) = 1" by (simp add: dec_short)
      with l show False by simp
    qed
    ultimately show ?thesis using dec_no_leading_zero by simp
  qed
  from a b c show ?thesis by blast
qed

text \<open>
  C7. For every \<open>num_instructors \<ge> 1\<close> the catalogue is generated (no exception), it has
  \<open>num_courses\<close> courses, and the \<open>instructor_id\<close> of the course at index \<open>i\<close> is \<open>PROF\<close>
  followed by \<open>i mod num_instructors\<close> written as \<open>{:03d}\<close> writes it: decimal digits
  whose value is \<open>i mod num_instructors\<close>, at least three of them, and with no leading zero
  beyond the third. The instructor generated at index \<open>i mod num_instructors\<close> has that id.
\<close>

theorem round_robin_instructor:
  assumes "1 \<le> ni"
  shows "\<exists>cs g'. generate_courses nc ni g = Inr (cs, g') \<and> length cs = nat nc
           \<and> (\<forall>i < nat nc. \<exists>digits.
                  instructor_id (cs ! i) = ''PROF'' @ digits
                  \<and> digits = fmt_0d 3 (int i mod ni)
                  \<and> set digits \<subseteq> set ''0123456789''
                  \<and> foldl (\<lambda>a c. 10 * a + (of_char c - 48)) (0::nat) digits = nat (int i mod ni)
                  \<and> 3 \<le> length digits
                  \<and> (3 < length digits \<longrightarrow> hd digits \<noteq> CHR ''0'')
                  \<and> (\<forall>nc' cs' g1 ins g2. generate_instructors ni nc' cs' g1 = (ins, g2)
                         \<longrightarrow> i_id (ins ! nat (int i mod ni)) = instructor_id (cs ! i)))"
proof -
  obtain names g1 where n: "generate_course_names nc g = (names, g1)"
    by (cases "generate_course_names nc g")
  from assms have "ni \<noteq> 0" by simp
  from courses_loop_total[OF this] obtain cs g' where
    l: "courses_loop ni names [0..<nat nc] g1 = Inr (cs, g')" by blast
  from courses_loop_Inr[OF l] have
    m: "map instructor_id cs = map (\<lambda>i. ''PROF'' @ fmt_0d 3 (int i mod ni)) [0..<nat nc]" by simp
  from arg_cong[OF m, of length] have len: "length cs = nat nc" by simp
  have each: "\<exists>digits.
        instructor_id (cs ! i) = ''PROF'' @ digits
        \<and> digits = fmt_0d 3 (int i mod ni)
        \<and> set digits \<subseteq> set ''0123456789''
        \<and> foldl (\<lambda>a c. 10 * a + (of_char c - 48)) (0::nat) digits = nat (int i mod ni)
        \<and> 3 \<le> length digits
        \<and> (3 < length digits \<longrightarrow> hd digits \<noteq> CHR ''0'')
        \<and> (\<forall>nc' cs' g1 ins g2. generate_instructors ni nc' cs' g1 = (ins, g2)
               \<longrightarrow> i_id (ins ! nat (int i mod ni)) = instructor_id (cs ! i))"
    if i: "i < nat nc" for i
  proof -
    define j where "j = nat (int i mod ni)"
    from assms have "0 \<le> int i mod ni" "int i mod ni < ni" by simp_all
    then have j: "int j = int i mod ni" "j < nat ni" by (simp_all add: j_def)
    from i have "instructor_id (cs ! i) = map instructor_id cs ! i" using len by simp
    also have "\<dots> = ''PROF'' @ fmt_0d 3 (int i mod ni)" using i by (simp add: m)
    finally have id: "instructor_id (cs ! i) = ''PROF'' @ fmt_0d 3 (int j)" by (simp add: j)
    have same: "i_id (ins ! j) = instructor_id (cs ! i)"
      if g: "generate_instructors ni nc' cs' g1 = (ins, g2)" for nc' cs' g1 ins g2
    proof -
      from generate_instructors_props(1)[OF g]
      have mi: "map i_id ins = map (\<lambda>i. ''PROF'' @ fmt_0d 3 (int i)) [0..<nat ni]" .
      from arg_cong[OF mi, of length] have "length ins = nat ni" by simp
      with j(2) have "i_id (ins ! j) = map i_id ins ! j" by simp
      also have "\<dots> = ''PROF'' @ fmt_0d 3 (int j)" using j(2) by (simp add: mi)
      finally show ?thesis using id by simp
    qed
    from fmt_0d_shape[of j] read_fmt_0d[of 3 j] id same
    show ?thesis unfolding j(1) j_def[symmetric] by blast
  qed
  from l len have "generate_courses nc ni g = Inr (cs, g') \<and> length cs = nat nc"
    by (simp add: generate_courses_def n)
  with each show ?thesis by blast
qed

theorem round_robin_instructor_witness:
  "(1::int) \<le> 11 \<and>
   (\<exists>cs g'. generate_courses 12 11 [] = Inr (cs, g') \<and> length cs = nat 12
      \<and> map instructor_id cs =
          [''PROF000'', ''PROF001'', ''PROF002'', ''PROF003'', ''PROF004'', ''PROF005'',
           ''PROF006'', ''PROF007'', ''PROF008'', ''PROF009'', ''PROF010'', ''PROF000'']
      \<and> (\<forall>i < nat 12. \<exists>digits.
             instructor_id (cs ! i) = ''PROF'' @ digits
             \<and> digits = fmt_0d 3 (int i mod 11)
             \<and> set digits \<subseteq> set ''0123456789''
             \<and> foldl (\<lambda>a c. 10 * a + (of_char c - 48)) (0::nat) digits = nat (int i mod 11)
             \<and> 3 \<le> length digits
             \<and> (3 < length digits \<longrightarrow> hd digits \<noteq> CHR ''0'')
             \<and> (\<forall>nc' cs' g1 ins g2. generate_instructors 11 nc' cs' g1 = (ins, g2)
                    \<longrightarrow> i_id (ins ! nat (int i mod 11)) = instructor_id (cs ! i))))"
proof -
  have h: "(1::int) \<le> 11" by simp
  have e: "map_sum id (map instructor_id \<circ> fst) (generate_courses 12 11 []) =
      Inr [''PROF000'', ''PROF001'', ''PROF002'', ''PROF003'', ''PROF004'', ''PROF005'',
           ''PROF006'', ''PROF007'', ''PROF008'', ''PROF009'', ''PROF010'', ''PROF000'']"
    by code_simp
  from round_robin_instructor[OF h, of 12 "[]"] obtain cs g' where
    run: "generate_courses 12 11 [] = Inr (cs, g')" and rest: "length cs = nat 12"
      "\<forall>i < nat 12. \<exists>digits.
             instructor_id (cs ! i) = ''PROF'' @ digits
             \<and> digits = fmt_0d 3 (int i mod 11)
             \<and> set digits \<subseteq> set ''0123456789''
             \<and> foldl (\<lambda>a c. 10 * a + (of_char c - 48)) (0::nat) digits = nat (int i mod 11)
             \<and> 3 \<le> length digits
             \<and> (3 < length digits \<longrightarrow> hd digits \<noteq> CHR ''0'')
             \<and> (\<forall>nc' cs' g1 ins g2. generate_instructors 11 nc' cs' g1 = (ins, g2)
                    \<longrightarrow> i_id (ins ! nat (int i mod 11)) = instructor_id (cs ! i))"
    by blast
  from e run have ids: "map instructor_id cs =
          [''PROF000'', ''PROF001'', ''PROF002'', ''PROF003'', ''PROF004'', ''PROF005'',
           ''PROF006'', ''PROF007'', ''PROF008'', ''PROF009'', ''PROF010'', ''PROF000'']"
    by simp
  show ?thesis
    by (intro conjI exI[of _ cs] exI[of _ g']) (rule h run rest ids)+
qed

end
